theory Spec2Isabelle
  imports
    Main
    "HOL-Library.Char_ord"
    "HOL-Library.List_Lexorder"
    "HOL-Library.Multiset"
    "HOL-Library.Word"
    "HOL-Library.Signed_Division"
begin

unbundle bit_operations_syntax

section \<open>Verification of Telegram WebApp launch payloads (webapps.go)\<close>

text \<open>
  The development embeds package \<^verbatim>\<open>webapps\<close>: the first revision held by
  \<^verbatim>\<open>src/webapps.go\<close> (lines 1 to 154; the file carries an older revision after a
  separator line, which is not what is verified here). Every function of that revision
  is a HOL function with the name it has in the source. The functions of Go's standard
  library that the package calls (\<^verbatim>\<open>net/url\<close>, \<^verbatim>\<open>strconv\<close>, \<^verbatim>\<open>time\<close>,
  \<^verbatim>\<open>crypto/hmac\<close>, \<^verbatim>\<open>crypto/sha256\<close>, \<^verbatim>\<open>crypto/subtle\<close>, \<^verbatim>\<open>encoding/hex\<close>,
  \<^verbatim>\<open>encoding/json\<close>, \<^verbatim>\<open>sort\<close>, \<^verbatim>\<open>strings\<close>) are embedded as well, from the
  library's own sources, under the names they have there.

  A Go \<^verbatim>\<open>string\<close> and a \<^verbatim>\<open>[]byte\<close> are both a \<^typ>\<open>string\<close>: a list of
  8-bit characters. Go compares strings byte by byte, a proper prefix being smaller;
  that is the order of \<^typ>\<open>string\<close> here (the order of \<^typ>\<open>char\<close> is the one of
  the byte values, lists are ordered lexicographically).
\<close>

subsection \<open>Errors\<close>

text \<open>
  Errors of the standard library, by kind. \<^verbatim>\<open>url.EscapeError\<close> carries the offending
  text; the other messages are not modelled. \<open>IndexOutOfRange\<close> stands for the run-time
  panic of an index past the end of a string.
\<close>

datatype url_error = EscapeError string | InvalidSemicolonSeparator | IndexOutOfRange

datatype num_error = ErrSyntax | ErrRange

datatype json_error = SyntaxError | UnmarshalTypeError string | PhasePanic

text \<open>
  The error values \<^verbatim>\<open>VerifyWebAppData\<close> and its helpers return. The package declares
  six sentinels (lines 18 to 25); two of them are only ever returned wrapped by
  \<^verbatim>\<open>fmt.Errorf\<close> together with the library's error, and the user decoder wraps the
  library's error in a message of its own:
  \<^item> \<open>ErrInvalidHash\<close>, \<open>ErrUserFieldMissing\<close>, \<open>ErrAuthDateMissing\<close>, \<open>ErrDataExpired\<close>:
    the sentinels, returned as they are;
  \<^item> \<open>ErrAuthDateInvalid e\<close>: \<^verbatim>\<open>fmt.Errorf("%w: %v", ErrAuthDateInvalid, err)\<close>;
  \<^item> \<open>ErrInvalidDataFormat e\<close>: \<^verbatim>\<open>fmt.Errorf("%w: %v", ErrInvalidDataFormat, err)\<close>;
  \<^item> \<open>ParsingFailed e\<close>: \<^verbatim>\<open>fmt.Errorf("parsing failed: %w", err)\<close>;
  \<^item> \<open>UrlUnescapeFailed e\<close>: \<^verbatim>\<open>fmt.Errorf("url unescape failed: %w", err)\<close>;
  \<^item> \<open>JsonDecodeFailed e\<close>: \<^verbatim>\<open>fmt.Errorf("json decode failed: %w", err)\<close>.
\<close>

datatype error =
    ErrInvalidHash
  | ErrUserFieldMissing
  | ErrAuthDateMissing
  | ErrDataExpired
  | ErrAuthDateInvalid num_error
  | ErrInvalidDataFormat url_error
  | ParsingFailed error
  | UrlUnescapeFailed url_error
  | JsonDecodeFailed json_error

subsection \<open>Go maps\<close>

text \<open>
  A \<^verbatim>\<open>map[string]string\<close> is an association list with distinct keys. The order of
  the list is the order in which a \<^verbatim>\<open>range\<close> loop visits the entries; Go leaves
  that order unspecified, so nothing may depend on it. Indexing a map with a key it does
  not hold gives the zero value, the empty string. \<open>assign\<close> is the statement
  \<^verbatim>\<open>m[k] = v\<close>.
\<close>

type_synonym params = "(string \<times> string) list"

definition index :: "(string \<times> 'v list) list \<Rightarrow> string \<Rightarrow> 'v list" where
  "index m k = (case map_of m k of None \<Rightarrow> [] | Some v \<Rightarrow> v)"

fun assign :: "(string \<times> 'v) list \<Rightarrow> string \<Rightarrow> 'v \<Rightarrow> (string \<times> 'v) list" where
  "assign [] k v = [(k, v)]"
| "assign ((k', v') # m) k v = (if k' = k then (k, v) # m else (k', v') # assign m k v)"

subsection \<open>The canonicalizer: createDataCheckString (lines 116 to 130)\<close>

text \<open>
  \<open>range_pairs\<close> is the loop of lines 119 to 124, the slice \<open>pairs\<close> being its state.
  \<^verbatim>\<open>sort.Strings\<close> sorts a slice of strings in increasing order; it is \<^const>\<open>sort\<close>
  on \<^typ>\<open>string list\<close> (equal strings are indistinguishable, so the result does not
  depend on the sorting algorithm). \<open>strings_Join\<close> follows \<^verbatim>\<open>strings.Join\<close>: the
  empty string for no element, the element itself for one, and otherwise the first
  element followed by separator and element for each further one.
\<close>

fun range_pairs :: "params \<Rightarrow> string list \<Rightarrow> string list" where
  "range_pairs [] pairs = pairs"
| "range_pairs ((k, v) # rest) pairs =
     (if k = ''hash'' \<or> k = ''auth_date'' then range_pairs rest pairs
      else range_pairs rest (pairs @ [k @ ''='' @ v]))"

fun strings_Join :: "string list \<Rightarrow> string \<Rightarrow> string" where
  "strings_Join [] sep = []"
| "strings_Join [e] sep = e"
| "strings_Join (e # es) sep = fold (\<lambda>s b. b @ sep @ s) es e"

definition createDataCheckString :: "params \<Rightarrow> string \<Rightarrow> string" where
  "createDataCheckString params authDate =
     (let pairs = range_pairs params [];
          pairs = pairs @ [''auth_date='' @ authDate];
          pairs = sort pairs
      in strings_Join pairs [CHR 0x0A])"

text \<open>
  The specification's description of the canonical string, for comparison with the
  code: \<open>field_lines\<close> is the collection of lines \<open>key=value\<close>, one for each field other
  than \<open>hash\<close> and \<open>auth_date\<close>, and \<open>joined_by_newline\<close> puts one newline between
  consecutive lines and none at the end.
\<close>

definition field_lines :: "params \<Rightarrow> string multiset" where
  "field_lines params =
     {#k @ ''='' @ v. (k, v) \<in># filter_mset (\<lambda>(k, v). k \<noteq> ''hash'' \<and> k \<noteq> ''auth_date'') (mset params)#}"

fun joined_by_newline :: "string list \<Rightarrow> string" where
  "joined_by_newline [] = []"
| "joined_by_newline [l] = l"
| "joined_by_newline (l # m # ls) = l @ CHR 0x0A # joined_by_newline (m # ls)"

subsection \<open>SHA-256 (crypto/sha256)\<close>

text \<open>
  The digest of FIPS 180-4 as \<^verbatim>\<open>crypto/sha256\<close> computes it: \<open>blockGeneric\<close> is the
  block function of \<^verbatim>\<open>sha256block.go\<close> (message schedule, 64 rounds, feed-forward),
  \<open>padding\<close> the bytes \<^verbatim>\<open>checkSum\<close> appends (0x80, zeros up to 56 modulo 64, the
  length in bits as a big-endian \<^verbatim>\<open>uint64\<close>). \<^verbatim>\<open>bits.RotateLeft32(x, -k)\<close> rotates
  right by \<open>k\<close>.
\<close>

definition K256 :: "32 word list" where
  "K256 =
     [0x428a2f98, 0x71374491, 0xb5c0fbcf, 0xe9b5dba5] @
     [0x3956c25b, 0x59f111f1, 0x923f82a4, 0xab1c5ed5] @
     [0xd807aa98, 0x12835b01, 0x243185be, 0x550c7dc3] @
     [0x72be5d74, 0x80deb1fe, 0x9bdc06a7, 0xc19bf174] @
     [0xe49b69c1, 0xefbe4786, 0x0fc19dc6, 0x240ca1cc] @
     [0x2de92c6f, 0x4a7484aa, 0x5cb0a9dc, 0x76f988da] @
     [0x983e5152, 0xa831c66d, 0xb00327c8, 0xbf597fc7] @
     [0xc6e00bf3, 0xd5a79147, 0x06ca6351, 0x14292967] @
     [0x27b70a85, 0x2e1b2138, 0x4d2c6dfc, 0x53380d13] @
     [0x650a7354, 0x766a0abb, 0x81c2c92e, 0x92722c85] @
     [0xa2bfe8a1, 0xa81a664b, 0xc24b8b70, 0xc76c51a3] @
     [0xd192e819, 0xd6990624, 0xf40e3585, 0x106aa070] @
     [0x19a4c116, 0x1e376c08, 0x2748774c, 0x34b0bcb5] @
     [0x391c0cb3, 0x4ed8aa4a, 0x5b9cca4f, 0x682e6ff3] @
     [0x748f82ee, 0x78a5636f, 0x84c87814, 0x8cc70208] @
     [0x90befffa, 0xa4506ceb, 0xbef9a3f7, 0xc67178f2]"

definition init256 :: "32 word list" where
  "init256 =
    [0x6a09e667, 0xbb67ae85, 0x3c6ef372, 0xa54ff53a, 0x510e527f, 0x9b05688c, 0x1f83d9ab, 0x5be0cd19]"

definition RotateRight32 :: "nat \<Rightarrow> 32 word \<Rightarrow> 32 word" where
  "RotateRight32 k x = word_rotr k x"

fun be_word :: "string \<Rightarrow> 32 word" where
  "be_word [b0, b1, b2, b3] =
     push_bit 24 (of_char b0) OR push_bit 16 (of_char b1) OR push_bit 8 (of_char b2) OR of_char b3"
| "be_word _ = 0"

fun first_words :: "nat \<Rightarrow> string \<Rightarrow> 32 word list" where
  "first_words 0 p = []"
| "first_words (Suc n) p = be_word (take 4 p) # first_words n (drop 4 p)"

definition next_w :: "32 word list \<Rightarrow> 32 word list" where
  "next_w w =
     (let i = length w;
          v1 = w ! (i - 2);
          t1 = RotateRight32 17 v1 XOR RotateRight32 19 v1 XOR drop_bit 10 v1;
          v2 = w ! (i - 15);
          t2 = RotateRight32 7 v2 XOR RotateRight32 18 v2 XOR drop_bit 3 v2
      in w @ [t1 + w ! (i - 7) + t2 + w ! (i - 16)])"

definition schedule :: "string \<Rightarrow> 32 word list" where
  "schedule p = (next_w ^^ 48) (first_words 16 p)"

fun round256 :: "32 word \<times> 32 word \<Rightarrow> 32 word list \<Rightarrow> 32 word list" where
  "round256 (k, w) [a, b, c, d, e, f, g, h] =
     (let t1 = h + (RotateRight32 6 e XOR RotateRight32 11 e XOR RotateRight32 25 e)
                 + ((e AND f) XOR (NOT e AND g)) + k + w;
          t2 = (RotateRight32 2 a XOR RotateRight32 13 a XOR RotateRight32 22 a)
                 + ((a AND b) XOR (a AND c) XOR (b AND c))
      in [t1 + t2, a, b, c, d + t1, e, f, g])"
| "round256 _ s = s"

definition block :: "32 word list \<Rightarrow> string \<Rightarrow> 32 word list" where
  "block hs p = map2 (+) hs (fold round256 (zip K256 (schedule p)) hs)"

function blockGeneric :: "32 word list \<Rightarrow> string \<Rightarrow> 32 word list" where
  "blockGeneric hs p =
     (if length p \<ge> 64 then blockGeneric (block hs (take 64 p)) (drop 64 p) else hs)"
  by pat_completeness auto
termination
  by (relation "measure (\<lambda>(hs, p). length p)") auto

definition be_bytes :: "nat \<Rightarrow> 'a::len word \<Rightarrow> string" where
  "be_bytes n x = map (\<lambda>i. char_of (uint (drop_bit (8 * i) x))) (rev [0..<n])"

definition padding :: "nat \<Rightarrow> string" where
  "padding len =
     (let t = (if len mod 64 < 56 then 56 - len mod 64 else 64 + 56 - len mod 64)
      in CHR 0x80 # replicate (t - 1) (CHR 0x00) @ be_bytes 8 (push_bit 3 (of_nat len :: 64 word)))"

definition sha256_Sum256 :: "string \<Rightarrow> string" where
  "sha256_Sum256 msg =
     concat (map (be_bytes 4) (blockGeneric init256 (msg @ padding (length msg))))"

subsection \<open>HMAC (crypto/hmac) and hexadecimal encoding (encoding/hex)\<close>

text \<open>
  An \<^verbatim>\<open>hmac\<close> object holds the two pads and two SHA-256 digests; a digest is
  represented by the bytes written to it so far, its sum being \<open>sha256_Sum256\<close> of
  them. \<open>hmac_New\<close> hashes a key longer than the block size of 64 bytes, pads the key
  with zero bytes, derives the pads and writes the inner pad to the inner digest.
  \<open>hmac_Sum h b\<close> appends the MAC to \<open>b\<close>.
\<close>

record hmac =
  opad :: string
  ipad :: string
  outer :: string
  inner :: string

definition xor_byte :: "8 word \<Rightarrow> char \<Rightarrow> char" where
  "xor_byte m c = char_of (uint (of_char c XOR m))"

definition hmac_New :: "string \<Rightarrow> hmac" where
  "hmac_New key =
     (let blocksize = 64;
          hashed = length key > blocksize;
          key1 = (if hashed then sha256_Sum256 key else key);
          pad = key1 @ replicate (blocksize - length key1) (CHR 0x00);
          ip = map (xor_byte 0x36) pad;
          op = map (xor_byte 0x5c) pad
      in \<lparr>opad = op, ipad = ip, outer = (if hashed then key else []), inner = ip\<rparr>)"

definition hmac_Write :: "hmac \<Rightarrow> string \<Rightarrow> hmac" where
  "hmac_Write h p = h\<lparr>inner := inner h @ p\<rparr>"

definition hmac_Sum :: "hmac \<Rightarrow> string \<Rightarrow> string" where
  "hmac_Sum h b =
     (let origLen = length b;
          b1 = b @ sha256_Sum256 (inner h);
          outer1 = opad h @ drop origLen b1
      in take origLen b1 @ sha256_Sum256 outer1)"

definition hextable :: string where
  "hextable = ''0123456789abcdef''"

definition hex_EncodeToString :: "string \<Rightarrow> string" where
  "hex_EncodeToString src =
     concat (map (\<lambda>c. [hextable ! (of_char c div 16), hextable ! (of_char c mod 16)]) src)"

subsection \<open>The signer: computeHMAC (lines 132 to 140)\<close>

definition computeHMAC :: "string \<Rightarrow> string \<Rightarrow> string" where
  "computeHMAC dataCheckString token =
     (let secret = hmac_New ''WebAppData'';
          secret = hmac_Write secret token;
          hHash = hmac_New (hmac_Sum secret []);
          hHash = hmac_Write hHash dataCheckString
      in hex_EncodeToString (hmac_Sum hHash []))"

text \<open>
  The specification's formula, for comparison with the code: HMAC of RFC 2104 over
  SHA-256, \<open>H((K' XOR opad) || H((K' XOR ipad) || message))\<close>, where \<open>K'\<close> is the key,
  hashed if longer than a block, filled with zero bytes to the block size.
\<close>

definition HMAC_SHA256 :: "string \<Rightarrow> string \<Rightarrow> string" where
  "HMAC_SHA256 key message =
     (let k0 = (if length key > 64 then sha256_Sum256 key else key);
          k' = k0 @ replicate (64 - length k0) (CHR 0x00)
      in sha256_Sum256 (map (xor_byte 0x5c) k' @ sha256_Sum256 (map (xor_byte 0x36) k' @ message)))"

definition lowercase_hex_digit :: "char \<Rightarrow> bool" where
  "lowercase_hex_digit c = (c \<in> set ''0123456789abcdef'')"

subsection \<open>Constant-time comparison (crypto/subtle) and the signature check\<close>

text \<open>
  \<^verbatim>\<open>hmac.Equal(a, b)\<close> is \<^verbatim>\<open>subtle.ConstantTimeCompare(a, b) == 1\<close>. The comparison
  returns 0 at once when the lengths differ; otherwise its loop visits every index,
  accumulating the bitwise OR of the XOR of the two bytes, and the accumulator is
  compared with zero by arithmetic. \<open>ConstantTimeCompare_loop\<close> is that loop with its
  two variables, the accumulator \<open>v\<close> and the index \<open>i\<close>; it returns both as they are
  when the loop ends.

  The cost of the comparison is part of the model. A function with the suffix \<open>_run\<close>
  returns the value of the source function together with the number of iterations that
  the loop of the comparison has made in that call (the final value of \<open>i\<close>, and 0 when
  the loop is not entered). The functions \<open>hmac_Equal\<close> and \<open>validateDataSignature\<close> are
  the values of their runs, so the count is the count of the comparison that decides the
  result of the signature check.
\<close>

function ConstantTimeCompare_loop :: "string \<Rightarrow> string \<Rightarrow> 8 word \<Rightarrow> nat \<Rightarrow> 8 word \<times> nat" where
  "ConstantTimeCompare_loop x y v i =
     (if i < length x
      then ConstantTimeCompare_loop x y (v OR (of_char (x ! i) XOR of_char (y ! i))) (i + 1)
      else (v, i))"
  by pat_completeness auto
termination
  by (relation "measure (\<lambda>(x, y, v, i). length x - i)") auto

definition ConstantTimeByteEq :: "8 word \<Rightarrow> 8 word \<Rightarrow> int" where
  "ConstantTimeByteEq x y = uint (drop_bit 31 ((ucast (x XOR y) :: 32 word) - 1))"

definition ConstantTimeCompare_run :: "string \<Rightarrow> string \<Rightarrow> int \<times> nat" where
  "ConstantTimeCompare_run x y =
     (if length x \<noteq> length y then (0, 0)
      else (case ConstantTimeCompare_loop x y 0 0 of (v, i) \<Rightarrow> (ConstantTimeByteEq v 0, i)))"

definition hmac_Equal_run :: "string \<Rightarrow> string \<Rightarrow> bool \<times> nat" where
  "hmac_Equal_run mac1 mac2 =
     (case ConstantTimeCompare_run mac1 mac2 of (r, n) \<Rightarrow> (r = 1, n))"

definition hmac_Equal :: "string \<Rightarrow> string \<Rightarrow> bool" where
  "hmac_Equal mac1 mac2 = fst (hmac_Equal_run mac1 mac2)"

text \<open>
  \<open>validateDataSignature\<close> (lines 105 to 114). Line 109 prints the expected and the
  received hash to standard output; the text written is \<open>validateDataSignature_stdout\<close>,
  and the returned error does not depend on it.
\<close>

definition validateDataSignature_run :: "params \<Rightarrow> string \<Rightarrow> string \<Rightarrow> error option \<times> nat" where
  "validateDataSignature_run params receivedHash token =
     (let dataCheckString = createDataCheckString params (index params ''auth_date'');
          expectedHash = computeHMAC dataCheckString token
      in case hmac_Equal_run expectedHash receivedHash of
           (equal, n) \<Rightarrow> (if \<not> equal then Some ErrInvalidHash else None, n))"

definition validateDataSignature :: "params \<Rightarrow> string \<Rightarrow> string \<Rightarrow> error option" where
  "validateDataSignature params receivedHash token =
     fst (validateDataSignature_run params receivedHash token)"

definition validateDataSignature_stdout :: "params \<Rightarrow> string \<Rightarrow> string \<Rightarrow> string" where
  "validateDataSignature_stdout params receivedHash token =
     computeHMAC (createDataCheckString params (index params ''auth_date'')) token
       @ '' '' @ receivedHash @ [CHR 0x0A]"

subsection \<open>The required-field check: validateRequiredFields (lines 79 to 89)\<close>

definition validateRequiredFields :: "params \<Rightarrow> error option" where
  "validateRequiredFields params =
     (if index params ''hash'' = [] then Some ErrInvalidHash
      else if index params ''user'' = [] then Some ErrUserFieldMissing
      else if index params ''auth_date'' = [] then Some ErrAuthDateMissing
      else None)"

text \<open>
  The specification's notion, for comparison with the code: a field is absent or empty.
\<close>

definition absent_or_empty :: "params \<Rightarrow> string \<Rightarrow> bool" where
  "absent_or_empty params k = (case map_of params k of None \<Rightarrow> True | Some v \<Rightarrow> v = [])"

subsection \<open>strconv.ParseInt\<close>

text \<open>
  \<^verbatim>\<open>strconv.ParseInt(s, 10, 64)\<close>: an optional sign, then \<^verbatim>\<open>ParseUint\<close> on the rest.
  \<^verbatim>\<open>ParseUint\<close> reads the bytes from the left; a byte that is not a digit of the base
  is a syntax error, and it stops with a range error (and the value \<open>2^64 - 1\<close>) as
  soon as the number read so far cannot be extended within 64 bits. The arithmetic is
  that of \<^verbatim>\<open>uint64\<close>, the wrap-around written out.
\<close>

definition lower :: "char \<Rightarrow> char" where
  "lower c = char_of ((of_char c :: int) OR 0x20)"

definition digit_value :: "char \<Rightarrow> int option" where
  "digit_value c =
     (if CHR ''0'' \<le> c \<and> c \<le> CHR ''9'' then Some (of_char c - of_char CHR ''0'')
      else if CHR ''a'' \<le> lower c \<and> lower c \<le> CHR ''z'' then Some (of_char (lower c) - of_char CHR ''a'' + 10)
      else None)"

fun ParseUint_loop :: "string \<Rightarrow> int \<Rightarrow> num_error + int" where
  "ParseUint_loop [] n = Inr n"
| "ParseUint_loop (c # s) n =
     (case digit_value c of
        None \<Rightarrow> Inl ErrSyntax
      | Some d \<Rightarrow>
          if d \<ge> 10 then Inl ErrSyntax
          else if n \<ge> (2 ^ 64 - 1) div 10 + 1 then Inl ErrRange
          else (let n' = (n * 10) mod 2 ^ 64;
                    n1 = (n' + d) mod 2 ^ 64
                in if n1 < n' \<or> n1 > 2 ^ 64 - 1 then Inl ErrRange else ParseUint_loop s n1))"

definition ParseUint :: "string \<Rightarrow> num_error + int" where
  "ParseUint s = (if s = [] then Inl ErrSyntax else ParseUint_loop s 0)"

definition ParseInt :: "string \<Rightarrow> num_error + int" where
  "ParseInt s =
     (if s = [] then Inl ErrSyntax
      else
        (let neg = (hd s = CHR ''-'');
             s1 = (if hd s = CHR ''+'' \<or> hd s = CHR ''-'' then tl s else s)
         in case ParseUint s1 of
              Inl ErrSyntax \<Rightarrow> Inl ErrSyntax
            | r \<Rightarrow>
               (let un = (case r of Inr n \<Rightarrow> n | Inl _ \<Rightarrow> 2 ^ 64 - 1);
                    cutoff = 2 ^ 63
                in if \<not> neg \<and> un \<ge> cutoff then Inl ErrRange
                   else if neg \<and> un > cutoff then Inl ErrRange
                   else Inr (if neg then - un else un))))"

text \<open>
  The specification's notion, for comparison with the code: \<open>signed_decimal s\<close> is the
  integer that \<open>s\<close> denotes as a decimal numeral with an optional sign (at least one
  digit, nothing else), of any size; \<open>None\<close> when \<open>s\<close> is not such a numeral.
\<close>

definition is_digit :: "char \<Rightarrow> bool" where
  "is_digit c = (CHR ''0'' \<le> c \<and> c \<le> CHR ''9'')"

definition decimal_value :: "string \<Rightarrow> int" where
  "decimal_value ds = foldl (\<lambda>n c. n * 10 + (of_char c - 48)) 0 ds"

definition decimal_digits :: "string \<Rightarrow> bool" where
  "decimal_digits ds = (ds \<noteq> [] \<and> list_all is_digit ds)"

definition signed_decimal :: "string \<Rightarrow> int option" where
  "signed_decimal s =
     (case s of
        [] \<Rightarrow> None
      | c # r \<Rightarrow>
          if c = CHR ''-'' then (if decimal_digits r then Some (- decimal_value r) else None)
          else if c = CHR ''+'' then (if decimal_digits r then Some (decimal_value r) else None)
          else if decimal_digits s then Some (decimal_value s) else None)"

subsection \<open>Package time\<close>

text \<open>
  An \<^verbatim>\<open>int64\<close> is an \<^typ>\<open>int\<close>; \<open>wrap64\<close> is the value an \<^verbatim>\<open>int64\<close> operation
  stores when its mathematical result is \<open>x\<close>. Go's \<^verbatim>\<open>/\<close> and \<^verbatim>\<open>%\<close> truncate towards
  zero: they are \<open>sdiv\<close> and \<open>smod\<close>.

  A \<^verbatim>\<open>time.Time\<close> is represented by what its methods \<^verbatim>\<open>sec()\<close> and \<^verbatim>\<open>nsec()\<close>
  return: the seconds since January 1 of year 1 (an \<^verbatim>\<open>int64\<close>) and the nanoseconds
  within the second. \<^verbatim>\<open>time.Unix\<close> adds the constant \<open>unixToInternal\<close> to its argument
  in \<^verbatim>\<open>int64\<close> arithmetic. \<^verbatim>\<open>Time.Sub\<close> computes the difference in \<^verbatim>\<open>int64\<close>
  nanoseconds, adds it back to check it, and returns the smallest or largest
  \<^verbatim>\<open>Duration\<close> when the check fails. \<^verbatim>\<open>time.Since(t)\<close> is \<^verbatim>\<open>time.Now().Sub(t)\<close> for a
  \<open>t\<close> without monotonic clock reading, as \<^verbatim>\<open>time.Unix\<close> returns it; the reading of the
  clock is the parameter \<open>now\<close> of every function that depends on it.
\<close>

definition wrap64 :: "int \<Rightarrow> int" where
  "wrap64 x = (x + 2 ^ 63) mod 2 ^ 64 - 2 ^ 63"

record Time =
  sec :: int
  nsec :: int

definition unixToInternal :: int where
  "unixToInternal = (1969 * 365 + 1969 div 4 - 1969 div 100 + 1969 div 400) * 86400"

definition Second :: int where
  "Second = 1000000000"

definition Hour :: int where
  "Hour = 60 * (60 * Second)"

definition minDuration :: int where
  "minDuration = - (2 ^ 63)"

definition maxDuration :: int where
  "maxDuration = 2 ^ 63 - 1"

definition MaxDataAge :: int where
  "MaxDataAge = 24 * Hour"

definition unixTime :: "int \<Rightarrow> int \<Rightarrow> Time" where
  "unixTime s ns = \<lparr>sec = wrap64 (s + unixToInternal), nsec = ns\<rparr>"

definition time_Unix :: "int \<Rightarrow> int \<Rightarrow> Time" where
  "time_Unix s ns =
     (if ns < 0 \<or> ns \<ge> 1000000000
      then (let n = ns sdiv 1000000000;
                s1 = wrap64 (s + n);
                ns1 = wrap64 (ns - wrap64 (n * 1000000000))
            in if ns1 < 0 then unixTime (wrap64 (s1 - 1)) (ns1 + 1000000000)
               else unixTime s1 ns1)
      else unixTime s ns)"

definition addSec :: "Time \<Rightarrow> int \<Rightarrow> Time" where
  "addSec t d =
     (let sum = wrap64 (sec t + d)
      in if (sum > sec t) = (d > 0) then t\<lparr>sec := sum\<rparr>
         else if d > 0 then t\<lparr>sec := 2 ^ 63 - 1\<rparr>
         else t\<lparr>sec := - (2 ^ 63 - 1)\<rparr>)"

definition time_Add :: "Time \<Rightarrow> int \<Rightarrow> Time" where
  "time_Add t d =
     (let dsec = d sdiv 1000000000;
          ns = nsec t + d smod 1000000000
      in if ns \<ge> 1000000000 then addSec (t\<lparr>nsec := ns - 1000000000\<rparr>) (dsec + 1)
         else if ns < 0 then addSec (t\<lparr>nsec := ns + 1000000000\<rparr>) (dsec - 1)
         else addSec (t\<lparr>nsec := ns\<rparr>) dsec)"

definition time_Equal :: "Time \<Rightarrow> Time \<Rightarrow> bool" where
  "time_Equal t u = (sec t = sec u \<and> nsec t = nsec u)"

definition time_Before :: "Time \<Rightarrow> Time \<Rightarrow> bool" where
  "time_Before t u = (sec t < sec u \<or> sec t = sec u \<and> nsec t < nsec u)"

definition time_Sub :: "Time \<Rightarrow> Time \<Rightarrow> int" where
  "time_Sub t u =
     (let d = wrap64 (wrap64 (wrap64 (sec t - sec u) * Second) + (nsec t - nsec u))
      in if time_Equal (time_Add u d) t then d
         else if time_Before t u then minDuration
         else maxDuration)"

definition time_Since :: "Time \<Rightarrow> Time \<Rightarrow> int" where
  "time_Since now t = time_Sub now t"

text \<open>
  \<open>clock s ns\<close> is the reading of \<^verbatim>\<open>time.Now()\<close> at \<open>s\<close> seconds and \<open>ns\<close> nanoseconds
  after the Unix epoch.
\<close>

definition clock :: "int \<Rightarrow> int \<Rightarrow> Time" where
  "clock s ns = \<lparr>sec = s + unixToInternal, nsec = ns\<rparr>"

text \<open>
  For the properties below: the difference \<open>t - u\<close> in nanoseconds as an unbounded
  integer, and the times whose seconds are an \<^verbatim>\<open>int64\<close> and whose nanoseconds are
  within the second.
\<close>

definition exact_difference :: "Time \<Rightarrow> Time \<Rightarrow> int" where
  "exact_difference t u = (sec t - sec u) * 1000000000 + (nsec t - nsec u)"

definition valid_Time :: "Time \<Rightarrow> bool" where
  "valid_Time t = (- (2 ^ 63) \<le> sec t \<and> sec t < 2 ^ 63 \<and> 0 \<le> nsec t \<and> nsec t < 1000000000)"

subsection \<open>The timestamp check: validateAuthTimestamp (lines 91 to 103)\<close>

definition validateAuthTimestamp :: "Time \<Rightarrow> string \<Rightarrow> error option" where
  "validateAuthTimestamp now authDateStr =
     (case ParseInt authDateStr of
        Inl err \<Rightarrow> Some (ErrAuthDateInvalid err)
      | Inr authTimestamp \<Rightarrow>
          (let authTime = time_Unix authTimestamp 0
           in if time_Since now authTime > MaxDataAge then Some ErrDataExpired else None))"

subsection \<open>net/url: QueryUnescape and ParseQuery\<close>

text \<open>
  \<^verbatim>\<open>url.QueryUnescape(s)\<close> is \<^verbatim>\<open>unescape(s, encodeQueryComponent)\<close>, two loops over
  the bytes. The first (\<open>unescape_check\<close>) returns an \<^verbatim>\<open>EscapeError\<close> with up to three
  bytes of text at the first \<open>%\<close> that is not followed by two hexadecimal digits. When the
  string holds neither \<open>%\<close> nor \<open>+\<close> it is returned as it is. The second loop
  (\<open>unescape_write\<close>) replaces every \<open>%XY\<close> by the byte it denotes and every \<open>+\<close> by a
  space; it reads the two bytes after a \<open>%\<close> without a bounds check of its own.
\<close>

definition ishex :: "char \<Rightarrow> bool" where
  "ishex c =
     (CHR ''0'' \<le> c \<and> c \<le> CHR ''9'' \<or> CHR ''a'' \<le> c \<and> c \<le> CHR ''f'' \<or> CHR ''A'' \<le> c \<and> c \<le> CHR ''F'')"

definition unhex :: "char \<Rightarrow> 8 word" where
  "unhex c =
     (if CHR ''0'' \<le> c \<and> c \<le> CHR ''9'' then of_char c - of_char CHR ''0''
      else if CHR ''a'' \<le> c \<and> c \<le> CHR ''f'' then of_char c - of_char CHR ''a'' + 10
      else if CHR ''A'' \<le> c \<and> c \<le> CHR ''F'' then of_char c - of_char CHR ''A'' + 10
      else 0)"

fun unescape_check :: "string \<Rightarrow> url_error option" where
  "unescape_check [] = None"
| "unescape_check (c # h1 # h2 # s) =
     (if c = CHR ''%''
      then (if ishex h1 \<and> ishex h2 then unescape_check s else Some (EscapeError [c, h1, h2]))
      else unescape_check (h1 # h2 # s))"
| "unescape_check (c # s) =
     (if c = CHR ''%'' then Some (EscapeError (c # s)) else unescape_check s)"

fun unescape_write :: "string \<Rightarrow> string option" where
  "unescape_write [] = Some []"
| "unescape_write (c # h1 # h2 # s) =
     (if c = CHR ''%''
      then map_option ((#) (char_of (uint (push_bit 4 (unhex h1) OR unhex h2)))) (unescape_write s)
      else if c = CHR ''+'' then map_option ((#) CHR '' '') (unescape_write (h1 # h2 # s))
      else map_option ((#) c) (unescape_write (h1 # h2 # s)))"
| "unescape_write (c # s) =
     (if c = CHR ''%'' then None
      else if c = CHR ''+'' then map_option ((#) CHR '' '') (unescape_write s)
      else map_option ((#) c) (unescape_write s))"

definition QueryUnescape :: "string \<Rightarrow> url_error + string" where
  "QueryUnescape s =
     (case unescape_check s of
        Some err \<Rightarrow> Inl err
      | None \<Rightarrow>
          (let n = count_list s CHR ''%'';
               hasPlus = (CHR ''+'' \<in> set s)
           in if n = 0 \<and> \<not> hasPlus then Inr s
              else (case unescape_write s of None \<Rightarrow> Inl IndexOutOfRange | Some t \<Rightarrow> Inr t)))"

text \<open>
  \<^verbatim>\<open>url.Values\<close> is a \<^verbatim>\<open>map[string][]string\<close>. \<^verbatim>\<open>url.ParseQuery\<close> cuts the query at
  every \<open>&\<close> (\<open>strings_Cut\<close> is \<^verbatim>\<open>strings.Cut\<close> for a separator of one byte: the text
  before the first separator and the text after it). A piece that contains a semicolon
  sets the error; an empty piece is skipped; any other piece is cut at its first \<open>=\<close>,
  key and value are unescaped (the first failure is kept as the error and the piece is
  skipped), and the value is appended to the values of the key. \<open>parseQuery_pair\<close> is
  the body of the loop after the cut, \<open>parseQuery\<close> the loop.
\<close>

type_synonym Values = "(string \<times> string list) list"

definition strings_Cut :: "string \<Rightarrow> char \<Rightarrow> string \<times> string" where
  "strings_Cut s sep = (takeWhile (\<lambda>c. c \<noteq> sep) s, drop 1 (dropWhile (\<lambda>c. c \<noteq> sep) s))"

definition parseQuery_pair :: "Values \<times> url_error option \<Rightarrow> string \<Rightarrow> Values \<times> url_error option" where
  "parseQuery_pair st key =
     (let m = fst st; err = snd st
      in if CHR '';'' \<in> set key then (m, Some InvalidSemicolonSeparator)
         else if key = [] then (m, err)
         else (let value = snd (strings_Cut key CHR ''='');
                   key = fst (strings_Cut key CHR ''='')
               in case QueryUnescape key of
                    Inl err1 \<Rightarrow> (m, if err = None then Some err1 else err)
                  | Inr key1 \<Rightarrow>
                      (case QueryUnescape value of
                         Inl err1 \<Rightarrow> (m, if err = None then Some err1 else err)
                       | Inr value1 \<Rightarrow> (assign m key1 (index m key1 @ [value1]), err))))"

function parseQuery :: "Values \<times> url_error option \<Rightarrow> string \<Rightarrow> Values \<times> url_error option" where
  "parseQuery st query =
     (if query = [] then st
      else parseQuery (parseQuery_pair st (fst (strings_Cut query CHR ''&'')))
             (snd (strings_Cut query CHR ''&'')))"
  by pat_completeness auto
termination
proof (relation "measure (\<lambda>(st, query). length query)")
  fix st :: "Values \<times> url_error option" and query :: string
  assume "query \<noteq> []"
  moreover have "length (dropWhile (\<lambda>c. c \<noteq> CHR ''&'') query) \<le> length query"
    by (rule length_dropWhile_le)
  ultimately show "((parseQuery_pair st (fst (strings_Cut query CHR ''&'')),
                    snd (strings_Cut query CHR ''&'')), (st, query))
                   \<in> measure (\<lambda>(st, query). length query)"
    by (cases query) (auto simp: strings_Cut_def)
qed simp

definition url_ParseQuery :: "string \<Rightarrow> Values \<times> url_error option" where
  "url_ParseQuery query = parseQuery ([], None) query"

definition Values_Get :: "Values \<Rightarrow> string \<Rightarrow> string" where
  "Values_Get v key = (let vs = index v key in if length vs = 0 then [] else vs ! 0)"

subsection \<open>The payload parser: parseInitData (lines 65 to 77)\<close>

text \<open>
  \<open>range_values values keys params\<close> is the loop of lines 72 to 74 over the entries
  \<open>keys\<close> still to visit. On an error the function returns a nil map and an empty hash.
\<close>

fun range_values :: "Values \<Rightarrow> Values \<Rightarrow> params \<Rightarrow> params" where
  "range_values values [] params = params"
| "range_values values ((key, vs) # rest) params =
     range_values values rest (assign params key (Values_Get values key))"

definition parseInitData :: "string \<Rightarrow> params \<times> string \<times> error option" where
  "parseInitData initData =
     (case url_ParseQuery initData of
        (values, Some err) \<Rightarrow> ([], [], Some (ErrInvalidDataFormat err))
      | (values, None) \<Rightarrow>
          (let params = range_values values values []
           in (params, index params ''hash'', None)))"






subsection \<open>encoding/json: the scanner\<close>

text \<open>
  \<^verbatim>\<open>json.Unmarshal\<close> first runs \<^verbatim>\<open>checkValid\<close>: the scanner of \<^verbatim>\<open>scanner.go\<close>, a
  state machine that reads one byte at a time. Its state is the current step function,
  the stack \<open>parseState\<close> of the objects and arrays that are open (the innermost first
  here), and the flags \<open>endTop\<close> and \<open>err\<close>. Each step function of the library is a
  function \<open>..._f\<close> here, or an instance of \<open>expect\<close> (the literals \<open>true\<close>,
  \<open>false\<close>, \<open>null\<close>) or \<open>hex_then\<close> (the four digits of a \<open>\u\<close> escape); it
  returns the new state and the opcode of the byte. Nesting deeper than 10000 is an
  error.
\<close>

datatype step =
    stateBeginValueOrEmpty | stateBeginValue | stateBeginStringOrEmpty | stateBeginString
  | stateEndValue | stateEndTop
  | stateInString | stateInStringEsc | stateInStringEscU | stateInStringEscU1
  | stateInStringEscU12 | stateInStringEscU123
  | stateNeg | state1 | state0 | stateDot | stateDot0 | stateE | stateESign | stateE0
  | stateT | stateTr | stateTru | stateF | stateFa | stateFal | stateFals
  | stateN | stateNu | stateNul
  | stateError

datatype parseState = parseObjectKey | parseObjectValue | parseArrayValue

datatype opcode =
    scanContinue | scanBeginLiteral | scanBeginObject | scanObjectKey | scanObjectValue
  | scanEndObject | scanBeginArray | scanArrayValue | scanEndArray | scanSkipSpace
  | scanEnd | scanError

record scanner =
  s_step :: step
  s_endTop :: bool
  s_parseState :: "parseState list"
  s_err :: bool

definition isSpace :: "char \<Rightarrow> bool" where
  "isSpace c = (c = CHR '' '' \<or> c = CHR 0x09 \<or> c = CHR 0x0D \<or> c = CHR 0x0A)"

definition isDigit19 :: "char \<Rightarrow> bool" where
  "isDigit19 c = (CHR ''1'' \<le> c \<and> c \<le> CHR ''9'')"

definition isDigit09 :: "char \<Rightarrow> bool" where
  "isDigit09 c = (CHR ''0'' \<le> c \<and> c \<le> CHR ''9'')"

definition scan_error :: "scanner \<Rightarrow> scanner \<times> opcode" where
  "scan_error s = (s\<lparr>s_step := stateError, s_err := True\<rparr>, scanError)"

definition goto :: "scanner \<Rightarrow> step \<Rightarrow> opcode \<Rightarrow> scanner \<times> opcode" where
  "goto s st op = (s\<lparr>s_step := st\<rparr>, op)"

definition maxNestingDepth :: nat where
  "maxNestingDepth = 10000"

definition pushParseState :: "scanner \<Rightarrow> parseState \<Rightarrow> opcode \<Rightarrow> scanner \<times> opcode" where
  "pushParseState s newParseState successState =
     (let s1 = s\<lparr>s_parseState := newParseState # s_parseState s\<rparr>
      in if length (s_parseState s1) \<le> maxNestingDepth then (s1, successState) else scan_error s1)"

definition popParseState :: "scanner \<Rightarrow> scanner" where
  "popParseState s =
     (let ps = tl (s_parseState s)
      in if ps = [] then s\<lparr>s_parseState := ps, s_step := stateEndTop, s_endTop := True\<rparr>
         else s\<lparr>s_parseState := ps, s_step := stateEndValue\<rparr>)"

definition stateEndTop_f :: "scanner \<Rightarrow> char \<Rightarrow> scanner \<times> opcode" where
  "stateEndTop_f s c =
     (if isSpace c then (s, scanEnd) else (s\<lparr>s_step := stateError, s_err := True\<rparr>, scanEnd))"

definition stateEndValue_f :: "scanner \<Rightarrow> char \<Rightarrow> scanner \<times> opcode" where
  "stateEndValue_f s c =
     (case s_parseState s of
        [] \<Rightarrow> stateEndTop_f (s\<lparr>s_step := stateEndTop, s_endTop := True\<rparr>) c
      | ps # rest \<Rightarrow>
          if isSpace c then goto s stateEndValue scanSkipSpace
          else (case ps of
             parseObjectKey \<Rightarrow>
               if c = CHR '':'' then goto (s\<lparr>s_parseState := parseObjectValue # rest\<rparr>) stateBeginValue scanObjectKey
               else scan_error s
           | parseObjectValue \<Rightarrow>
               if c = CHR '','' then goto (s\<lparr>s_parseState := parseObjectKey # rest\<rparr>) stateBeginString scanObjectValue
               else if c = CHR ''}'' then (popParseState s, scanEndObject)
               else scan_error s
           | parseArrayValue \<Rightarrow>
               if c = CHR '','' then goto s stateBeginValue scanArrayValue
               else if c = CHR '']'' then (popParseState s, scanEndArray)
               else scan_error s))"

definition stateBeginValue_f :: "scanner \<Rightarrow> char \<Rightarrow> scanner \<times> opcode" where
  "stateBeginValue_f s c =
     (if isSpace c then (s, scanSkipSpace)
      else if c = CHR ''{'' then pushParseState (s\<lparr>s_step := stateBeginStringOrEmpty\<rparr>) parseObjectKey scanBeginObject
      else if c = CHR ''['' then pushParseState (s\<lparr>s_step := stateBeginValueOrEmpty\<rparr>) parseArrayValue scanBeginArray
      else if c = CHR 0x22 then goto s stateInString scanBeginLiteral
      else if c = CHR ''-'' then goto s stateNeg scanBeginLiteral
      else if c = CHR ''0'' then goto s state0 scanBeginLiteral
      else if c = CHR ''t'' then goto s stateT scanBeginLiteral
      else if c = CHR ''f'' then goto s stateF scanBeginLiteral
      else if c = CHR ''n'' then goto s stateN scanBeginLiteral
      else if isDigit19 c then goto s state1 scanBeginLiteral
      else scan_error s)"

definition stateBeginValueOrEmpty_f :: "scanner \<Rightarrow> char \<Rightarrow> scanner \<times> opcode" where
  "stateBeginValueOrEmpty_f s c =
     (if isSpace c then (s, scanSkipSpace)
      else if c = CHR '']'' then stateEndValue_f s c
      else stateBeginValue_f s c)"

definition stateBeginString_f :: "scanner \<Rightarrow> char \<Rightarrow> scanner \<times> opcode" where
  "stateBeginString_f s c =
     (if isSpace c then (s, scanSkipSpace)
      else if c = CHR 0x22 then goto s stateInString scanBeginLiteral
      else scan_error s)"

definition stateBeginStringOrEmpty_f :: "scanner \<Rightarrow> char \<Rightarrow> scanner \<times> opcode" where
  "stateBeginStringOrEmpty_f s c =
     (if isSpace c then (s, scanSkipSpace)
      else if c = CHR ''}'' then stateEndValue_f (s\<lparr>s_parseState := parseObjectValue # tl (s_parseState s)\<rparr>) c
      else stateBeginString_f s c)"

definition stateInString_f :: "scanner \<Rightarrow> char \<Rightarrow> scanner \<times> opcode" where
  "stateInString_f s c =
     (if c = CHR 0x22 then goto s stateEndValue scanContinue
      else if c = CHR 0x5C then goto s stateInStringEsc scanContinue
      else if c < CHR 0x20 then scan_error s
      else (s, scanContinue))"

definition stateInStringEsc_f :: "scanner \<Rightarrow> char \<Rightarrow> scanner \<times> opcode" where
  "stateInStringEsc_f s c =
     (if c \<in> set ''bfnrt'' \<or> c = CHR 0x5C \<or> c = CHR ''/'' \<or> c = CHR 0x22 then goto s stateInString scanContinue
      else if c = CHR ''u'' then goto s stateInStringEscU scanContinue
      else scan_error s)"

definition hex_then :: "step \<Rightarrow> scanner \<Rightarrow> char \<Rightarrow> scanner \<times> opcode" where
  "hex_then st s c = (if ishex c then goto s st scanContinue else scan_error s)"

definition state0_f :: "scanner \<Rightarrow> char \<Rightarrow> scanner \<times> opcode" where
  "state0_f s c =
     (if c = CHR ''.'' then goto s stateDot scanContinue
      else if c = CHR ''e'' \<or> c = CHR ''E'' then goto s stateE scanContinue
      else stateEndValue_f s c)"

definition state1_f :: "scanner \<Rightarrow> char \<Rightarrow> scanner \<times> opcode" where
  "state1_f s c = (if isDigit09 c then goto s state1 scanContinue else state0_f s c)"

definition stateNeg_f :: "scanner \<Rightarrow> char \<Rightarrow> scanner \<times> opcode" where
  "stateNeg_f s c =
     (if c = CHR ''0'' then goto s state0 scanContinue
      else if isDigit19 c then goto s state1 scanContinue
      else scan_error s)"

definition stateDot_f :: "scanner \<Rightarrow> char \<Rightarrow> scanner \<times> opcode" where
  "stateDot_f s c = (if isDigit09 c then goto s stateDot0 scanContinue else scan_error s)"

definition stateDot0_f :: "scanner \<Rightarrow> char \<Rightarrow> scanner \<times> opcode" where
  "stateDot0_f s c =
     (if isDigit09 c then (s, scanContinue)
      else if c = CHR ''e'' \<or> c = CHR ''E'' then goto s stateE scanContinue
      else stateEndValue_f s c)"

definition stateESign_f :: "scanner \<Rightarrow> char \<Rightarrow> scanner \<times> opcode" where
  "stateESign_f s c = (if isDigit09 c then goto s stateE0 scanContinue else scan_error s)"

definition stateE_f :: "scanner \<Rightarrow> char \<Rightarrow> scanner \<times> opcode" where
  "stateE_f s c =
     (if c = CHR ''+'' \<or> c = CHR ''-'' then goto s stateESign scanContinue else stateESign_f s c)"

definition stateE0_f :: "scanner \<Rightarrow> char \<Rightarrow> scanner \<times> opcode" where
  "stateE0_f s c = (if isDigit09 c then (s, scanContinue) else stateEndValue_f s c)"

definition expect :: "char \<Rightarrow> step \<Rightarrow> scanner \<Rightarrow> char \<Rightarrow> scanner \<times> opcode" where
  "expect x st s c = (if c = x then goto s st scanContinue else scan_error s)"

definition scan_step :: "scanner \<Rightarrow> char \<Rightarrow> scanner \<times> opcode" where
  "scan_step s c =
     (case s_step s of
        stateBeginValueOrEmpty \<Rightarrow> stateBeginValueOrEmpty_f s c
      | stateBeginValue \<Rightarrow> stateBeginValue_f s c
      | stateBeginStringOrEmpty \<Rightarrow> stateBeginStringOrEmpty_f s c
      | stateBeginString \<Rightarrow> stateBeginString_f s c
      | stateEndValue \<Rightarrow> stateEndValue_f s c
      | stateEndTop \<Rightarrow> stateEndTop_f s c
      | stateInString \<Rightarrow> stateInString_f s c
      | stateInStringEsc \<Rightarrow> stateInStringEsc_f s c
      | stateInStringEscU \<Rightarrow> hex_then stateInStringEscU1 s c
      | stateInStringEscU1 \<Rightarrow> hex_then stateInStringEscU12 s c
      | stateInStringEscU12 \<Rightarrow> hex_then stateInStringEscU123 s c
      | stateInStringEscU123 \<Rightarrow> hex_then stateInString s c
      | stateNeg \<Rightarrow> stateNeg_f s c
      | state1 \<Rightarrow> state1_f s c
      | state0 \<Rightarrow> state0_f s c
      | stateDot \<Rightarrow> stateDot_f s c
      | stateDot0 \<Rightarrow> stateDot0_f s c
      | stateE \<Rightarrow> stateE_f s c
      | stateESign \<Rightarrow> stateESign_f s c
      | stateE0 \<Rightarrow> stateE0_f s c
      | stateT \<Rightarrow> expect CHR ''r'' stateTr s c
      | stateTr \<Rightarrow> expect CHR ''u'' stateTru s c
      | stateTru \<Rightarrow> expect CHR ''e'' stateEndValue s c
      | stateF \<Rightarrow> expect CHR ''a'' stateFa s c
      | stateFa \<Rightarrow> expect CHR ''l'' stateFal s c
      | stateFal \<Rightarrow> expect CHR ''s'' stateFals s c
      | stateFals \<Rightarrow> expect CHR ''e'' stateEndValue s c
      | stateN \<Rightarrow> expect CHR ''u'' stateNu s c
      | stateNu \<Rightarrow> expect CHR ''l'' stateNul s c
      | stateNul \<Rightarrow> expect CHR ''l'' stateEndValue s c
      | stateError \<Rightarrow> (s, scanError))"

definition scanner_reset :: scanner where
  "scanner_reset = \<lparr>s_step = stateBeginValue, s_endTop = False, s_parseState = [], s_err = False\<rparr>"

subsection \<open>encoding/json: the values read\<close>

text \<open>
  The decoder of \<^verbatim>\<open>decode.go\<close> walks the same bytes again, driven by the scanner's
  opcodes. Here the walk is folded into the scan: \<open>build\<close> collects, opcode by opcode,
  the value that the bytes denote. A literal (string, number, \<open>true\<close>, \<open>false\<close>,
  \<open>null\<close>) is kept as its bytes: the byte that begins it and the bytes the scanner
  continues it with. An object keeps its members in the order of the text, each key as
  the string literal it is written as. \<open>json_parse\<close> is \<^verbatim>\<open>checkValid\<close> together
  with that value: \<open>None\<close> is a syntax error; at the end of the input the scanner is
  given one space, which ends a number at the top level.
\<close>

datatype jvalue = JLiteral string | JArray "jvalue list" | JObject "(string \<times> jvalue) list"

datatype frame = ArrayFrame "jvalue list" | ObjectFrame "(string \<times> jvalue) list" "string option"

record builder =
  b_lit :: "string option"
  b_stack :: "frame list"
  b_result :: "jvalue option"

definition attach :: "jvalue \<Rightarrow> builder \<Rightarrow> builder" where
  "attach v b =
     (case b_stack b of
        [] \<Rightarrow> b\<lparr>b_result := Some v\<rparr>
      | ArrayFrame vs # st \<Rightarrow> b\<lparr>b_stack := ArrayFrame (vs @ [v]) # st\<rparr>
      | ObjectFrame ms None # st \<Rightarrow>
          (case v of JLiteral k \<Rightarrow> b\<lparr>b_stack := ObjectFrame ms (Some k) # st\<rparr> | _ \<Rightarrow> b)
      | ObjectFrame ms (Some k) # st \<Rightarrow> b\<lparr>b_stack := ObjectFrame (ms @ [(k, v)]) None # st\<rparr>)"

definition finish_literal :: "builder \<Rightarrow> builder" where
  "finish_literal b =
     (case b_lit b of None \<Rightarrow> b | Some l \<Rightarrow> attach (JLiteral l) (b\<lparr>b_lit := None\<rparr>))"

definition close_frame :: "builder \<Rightarrow> builder" where
  "close_frame b =
     (case b_stack b of
        [] \<Rightarrow> b
      | ArrayFrame vs # st \<Rightarrow> attach (JArray vs) (b\<lparr>b_stack := st\<rparr>)
      | ObjectFrame ms k # st \<Rightarrow> attach (JObject ms) (b\<lparr>b_stack := st\<rparr>))"

definition build :: "opcode \<Rightarrow> char \<Rightarrow> builder \<Rightarrow> builder" where
  "build op c b =
     (case op of
        scanContinue \<Rightarrow> b\<lparr>b_lit := map_option (\<lambda>l. l @ [c]) (b_lit b)\<rparr>
      | scanBeginLiteral \<Rightarrow> b\<lparr>b_lit := Some [c]\<rparr>
      | scanBeginObject \<Rightarrow> b\<lparr>b_stack := ObjectFrame [] None # b_stack b\<rparr>
      | scanBeginArray \<Rightarrow> b\<lparr>b_stack := ArrayFrame [] # b_stack b\<rparr>
      | scanEndObject \<Rightarrow> close_frame (finish_literal b)
      | scanEndArray \<Rightarrow> close_frame (finish_literal b)
      | _ \<Rightarrow> finish_literal b)"

fun scan_all :: "scanner \<Rightarrow> builder \<Rightarrow> string \<Rightarrow> (scanner \<times> builder) option" where
  "scan_all s b [] = Some (s, b)"
| "scan_all s b (c # data) =
     (let r = scan_step s c
      in if snd r = scanError then None else scan_all (fst r) (build (snd r) c b) data)"

definition json_parse :: "string \<Rightarrow> jvalue option" where
  "json_parse data =
     (case scan_all scanner_reset \<lparr>b_lit = None, b_stack = [], b_result = None\<rparr> data of
        None \<Rightarrow> None
      | Some (s, b) \<Rightarrow>
          if s_err s then None
          else if s_endTop s then b_result (finish_literal b)
          else (let r = scan_step s CHR '' ''
                in if s_endTop (fst r) then b_result (build (snd r) CHR '' '' b) else None))"

subsection \<open>encoding/json: strings\<close>

text \<open>
  \<open>unquoteBytes\<close> turns a string literal into the string it denotes: escapes are
  replaced, a \<open>\u\<close> escape by the UTF-8 encoding of its code point (two escapes that
  form a surrogate pair by the encoding of the pair's code point, a lone surrogate by
  the replacement character U+FFFD), and every byte that does not begin a well-formed
  UTF-8 sequence by the encoding of U+FFFD. \<open>utf8_size p\<close> is the length of the
  well-formed UTF-8 sequence at the start of \<open>p\<close>, or 0 when there is none
  (\<^verbatim>\<open>utf8.DecodeRune\<close> then answers \<^verbatim>\<open>RuneError\<close> and width 1); re-encoding a
  well-formed sequence gives the same bytes, so they are copied.
\<close>

definition byte_in :: "char \<Rightarrow> int \<Rightarrow> int \<Rightarrow> bool" where
  "byte_in c lo hi = (lo \<le> of_char c \<and> of_char c \<le> hi)"

definition utf8_accept :: "nat \<Rightarrow> int \<Rightarrow> int \<Rightarrow> string \<Rightarrow> nat" where
  "utf8_accept sz lo hi r =
     (if sz - 1 \<le> length r \<and> byte_in (hd r) lo hi \<and> list_all (\<lambda>c. byte_in c 0x80 0xBF) (take (sz - 2) (tl r))
      then sz else 0)"

definition utf8_size :: "string \<Rightarrow> nat" where
  "utf8_size p =
     (case p of
        [] \<Rightarrow> 0
      | p0 # r \<Rightarrow>
          (let b = (of_char p0 :: int)
           in if b < 0x80 then 1
              else if b < 0xC2 then 0
              else if b < 0xE0 then utf8_accept 2 0x80 0xBF r
              else if b = 0xE0 then utf8_accept 3 0xA0 0xBF r
              else if b = 0xED then utf8_accept 3 0x80 0x9F r
              else if b < 0xF0 then utf8_accept 3 0x80 0xBF r
              else if b = 0xF0 then utf8_accept 4 0x90 0xBF r
              else if b < 0xF4 then utf8_accept 4 0x80 0xBF r
              else if b = 0xF4 then utf8_accept 4 0x80 0x8F r
              else 0))"

definition RuneError :: int where
  "RuneError = 0xFFFD"

definition EncodeRune :: "int \<Rightarrow> string" where
  "EncodeRune r =
     (if r \<le> 0x7F then [char_of r]
      else if r \<le> 0x7FF then [char_of (0xC0 + r div 64), char_of (0x80 + r mod 64)]
      else if r > 0x10FFFF \<or> (0xD800 \<le> r \<and> r \<le> 0xDFFF) then [CHR 0xEF, CHR 0xBF, CHR 0xBD]
      else if r \<le> 0xFFFF
        then [char_of (0xE0 + r div 4096), char_of (0x80 + r div 64 mod 64), char_of (0x80 + r mod 64)]
      else [char_of (0xF0 + r div 262144), char_of (0x80 + r div 4096 mod 64),
            char_of (0x80 + r div 64 mod 64), char_of (0x80 + r mod 64)])"

fun hex4 :: "string \<Rightarrow> int \<Rightarrow> int" where
  "hex4 [] r = r"
| "hex4 (c # s) r = (if ishex c then hex4 s (r * 16 + uint (unhex c)) else - 1)"

definition getu4 :: "string \<Rightarrow> int" where
  "getu4 s =
     (if 6 \<le> length s \<and> s ! 0 = CHR 0x5C \<and> s ! 1 = CHR ''u'' then hex4 (take 4 (drop 2 s)) 0 else - 1)"

definition utf16_DecodeRune :: "int \<Rightarrow> int \<Rightarrow> int" where
  "utf16_DecodeRune r1 r2 =
     (if 0xD800 \<le> r1 \<and> r1 < 0xDC00 \<and> 0xDC00 \<le> r2 \<and> r2 < 0xE000
      then (r1 - 0xD800) * 1024 + (r2 - 0xDC00) + 0x10000
      else RuneError)"

definition simple_escape :: "char \<Rightarrow> char option" where
  "simple_escape e =
     (if e = CHR 0x22 \<or> e = CHR 0x5C \<or> e = CHR ''/'' \<or> e = CHR 0x27 then Some e
      else if e = CHR ''b'' then Some (CHR 0x08)
      else if e = CHR ''f'' then Some (CHR 0x0C)
      else if e = CHR ''n'' then Some (CHR 0x0A)
      else if e = CHR ''r'' then Some (CHR 0x0D)
      else if e = CHR ''t'' then Some (CHR 0x09)
      else None)"

function unquote_loop :: "string \<Rightarrow> string option" where
  "unquote_loop s =
     (case s of
        [] \<Rightarrow> Some []
      | c # s1 \<Rightarrow>
          if c = CHR 0x5C then
            (case s1 of
               [] \<Rightarrow> None
             | e # s2 \<Rightarrow>
                 if e = CHR ''u'' then
                   (let rr = getu4 s
                    in if rr < 0 then None
                       else if 0xD800 \<le> rr \<and> rr < 0xE000 then
                         (let dec = utf16_DecodeRune rr (getu4 (drop 6 s))
                          in if dec \<noteq> RuneError
                             then map_option ((@) (EncodeRune dec)) (unquote_loop (drop 12 s))
                             else map_option ((@) (EncodeRune RuneError)) (unquote_loop (drop 6 s)))
                       else map_option ((@) (EncodeRune rr)) (unquote_loop (drop 6 s)))
                 else (case simple_escape e of
                         None \<Rightarrow> None
                       | Some x \<Rightarrow> map_option ((#) x) (unquote_loop s2)))
          else if c = CHR 0x22 \<or> c < CHR 0x20 then None
          else if c < CHR 0x80 then map_option ((#) c) (unquote_loop s1)
          else (let size = utf8_size s
                in if size = 0 then map_option ((@) (EncodeRune RuneError)) (unquote_loop s1)
                   else map_option ((@) (take size s)) (unquote_loop (drop size s))))"
  by pat_completeness auto
termination
  by (relation "measure length") auto

definition unquoteBytes :: "string \<Rightarrow> string option" where
  "unquoteBytes s =
     (if 2 \<le> length s \<and> hd s = CHR 0x22 \<and> last s = CHR 0x22 then unquote_loop (butlast (tl s)) else None)"

subsection \<open>encoding/json: decoding into WebAppUser\<close>

text \<open>
  The struct of lines 31 to 42; an \<^verbatim>\<open>int\<close> has 64 bits. \<open>fields\<close> lists the JSON
  names of the struct tags. A key of the JSON object selects the field whose name it
  equals, or else the field whose name it equals under Unicode simple case folding
  (\<open>foldName\<close>: ASCII letters to upper case, the long s U+017F to \<open>S\<close>, the Kelvin sign
  U+212A to \<open>K\<close>; no other character folds to an ASCII letter, and the model leaves the
  others as they are); a key that selects no field is skipped with its value.

  \<open>literalStore\<close> stores a literal into a field: \<open>null\<close> changes nothing; a value
  of the wrong JSON type, or a number that \<^verbatim>\<open>strconv.ParseInt\<close> rejects, leaves the
  field as it is and saves an \<^verbatim>\<open>UnmarshalTypeError\<close>. Only the first error is saved
  (\<open>saveError\<close>), and decoding goes on with the next member. An object or an array
  where a field of the struct is expected is such an error as well, and so is a
  top-level value other than an object or \<open>null\<close>. \<open>json_Unmarshal data v\<close> returns
  the struct as decoding leaves it, and the error. \<open>PhasePanic\<close> stands for the panic
  of the decoder on a literal the scanner has accepted and \<open>unquoteBytes\<close> rejects.
\<close>

record WebAppUser =
  ID :: int
  IsBot :: bool
  IsPremium :: bool
  FirstName :: string
  LastName :: string
  Username :: string
  LanguageCode :: string
  AddedToAttachmentMenu :: bool
  AllowsWriteToPm :: bool
  PhotoURL :: string

definition WebAppUser_zero :: WebAppUser where
  "WebAppUser_zero =
     \<lparr>ID = 0, IsBot = False, IsPremium = False, FirstName = [], LastName = [], Username = [],
      LanguageCode = [], AddedToAttachmentMenu = False, AllowsWriteToPm = False, PhotoURL = []\<rparr>"

datatype field =
    F_ID | F_IsBot | F_IsPremium | F_FirstName | F_LastName | F_Username | F_LanguageCode
  | F_AddedToAttachmentMenu | F_AllowsWriteToPm | F_PhotoURL

datatype kind = reflect_Int | reflect_Bool | reflect_String

definition fields :: "(string \<times> field) list" where
  "fields =
     [(''id'', F_ID), (''is_bot'', F_IsBot), (''is_premium'', F_IsPremium),
      (''first_name'', F_FirstName), (''last_name'', F_LastName), (''username'', F_Username),
      (''language_code'', F_LanguageCode), (''added_to_attachment_menu'', F_AddedToAttachmentMenu),
      (''allows_write_to_pm'', F_AllowsWriteToPm), (''photo_url'', F_PhotoURL)]"

fun field_kind :: "field \<Rightarrow> kind" where
  "field_kind F_ID = reflect_Int"
| "field_kind F_IsBot = reflect_Bool"
| "field_kind F_IsPremium = reflect_Bool"
| "field_kind F_AddedToAttachmentMenu = reflect_Bool"
| "field_kind F_AllowsWriteToPm = reflect_Bool"
| "field_kind _ = reflect_String"

fun SetInt :: "field \<Rightarrow> int \<Rightarrow> WebAppUser \<Rightarrow> WebAppUser" where
  "SetInt F_ID n u = u\<lparr>ID := n\<rparr>"
| "SetInt _ n u = u"

fun SetBool :: "field \<Rightarrow> bool \<Rightarrow> WebAppUser \<Rightarrow> WebAppUser" where
  "SetBool F_IsBot x u = u\<lparr>IsBot := x\<rparr>"
| "SetBool F_IsPremium x u = u\<lparr>IsPremium := x\<rparr>"
| "SetBool F_AddedToAttachmentMenu x u = u\<lparr>AddedToAttachmentMenu := x\<rparr>"
| "SetBool F_AllowsWriteToPm x u = u\<lparr>AllowsWriteToPm := x\<rparr>"
| "SetBool _ x u = u"

fun SetString :: "field \<Rightarrow> string \<Rightarrow> WebAppUser \<Rightarrow> WebAppUser" where
  "SetString F_FirstName x u = u\<lparr>FirstName := x\<rparr>"
| "SetString F_LastName x u = u\<lparr>LastName := x\<rparr>"
| "SetString F_Username x u = u\<lparr>Username := x\<rparr>"
| "SetString F_LanguageCode x u = u\<lparr>LanguageCode := x\<rparr>"
| "SetString F_PhotoURL x u = u\<lparr>PhotoURL := x\<rparr>"
| "SetString _ x u = u"

function foldName :: "string \<Rightarrow> string" where
  "foldName s =
     (case s of
        [] \<Rightarrow> []
      | c # s1 \<Rightarrow>
          if c < CHR 0x80 then
            (if CHR ''a'' \<le> c \<and> c \<le> CHR ''z'' then char_of ((of_char c :: int) - 0x20) else c) # foldName s1
          else if take 2 s = [CHR 0xC5, CHR 0xBF] then CHR ''S'' # foldName (drop 2 s)
          else if take 3 s = [CHR 0xE2, CHR 0x84, CHR 0xAA] then CHR ''K'' # foldName (drop 3 s)
          else c # foldName s1)"
  by pat_completeness auto
termination
  by (relation "measure length") auto

definition find_field :: "string \<Rightarrow> field option" where
  "find_field key =
     (case map_of fields key of
        Some f \<Rightarrow> Some f
      | None \<Rightarrow> map_of (map (\<lambda>(name, f). (foldName name, f)) fields) (foldName key))"

definition saveError :: "json_error option \<Rightarrow> json_error \<Rightarrow> json_error option" where
  "saveError saved e = (case saved of None \<Rightarrow> Some e | Some e0 \<Rightarrow> Some e0)"

definition literalStore :: "string \<Rightarrow> field \<Rightarrow> WebAppUser \<times> json_error option \<Rightarrow> WebAppUser \<times> json_error option" where
  "literalStore item f st =
     (let u = fst st; saved = snd st; c = hd item
      in if c = CHR ''n'' then st
         else if c = CHR ''t'' \<or> c = CHR ''f'' then
           (if field_kind f = reflect_Bool then (SetBool f (c = CHR ''t'') u, saved)
            else (u, saveError saved (UnmarshalTypeError ''bool'')))
         else if c = CHR 0x22 then
           (case unquoteBytes item of
              None \<Rightarrow> (u, Some PhasePanic)
            | Some x \<Rightarrow>
                if field_kind f = reflect_String then (SetString f x u, saved)
                else (u, saveError saved (UnmarshalTypeError ''string'')))
         else
           (if field_kind f = reflect_Int then
              (case ParseInt item of
                 Inr n \<Rightarrow> (SetInt f n u, saved)
               | Inl e \<Rightarrow> (u, saveError saved (UnmarshalTypeError (''number '' @ item))))
            else (u, saveError saved (UnmarshalTypeError ''number''))))"

fun object_members :: "(string \<times> jvalue) list \<Rightarrow> WebAppUser \<times> json_error option \<Rightarrow> WebAppUser \<times> json_error option" where
  "object_members [] st = st"
| "object_members ((k, v) # ms) st =
     object_members ms
       (case unquoteBytes k of
          None \<Rightarrow> (fst st, Some PhasePanic)
        | Some key \<Rightarrow>
            (case find_field key of
               None \<Rightarrow> st
             | Some f \<Rightarrow>
                 (case v of
                    JLiteral item \<Rightarrow> literalStore item f st
                  | JArray vs \<Rightarrow> (fst st, saveError (snd st) (UnmarshalTypeError ''array''))
                  | JObject ms' \<Rightarrow> (fst st, saveError (snd st) (UnmarshalTypeError ''object'')))))"

definition decode_value :: "jvalue \<Rightarrow> WebAppUser \<Rightarrow> WebAppUser \<times> json_error option" where
  "decode_value v u =
     (case v of
        JObject ms \<Rightarrow> object_members ms (u, None)
      | JArray vs \<Rightarrow> (u, Some (UnmarshalTypeError ''array''))
      | JLiteral item \<Rightarrow>
          (let c = hd item
           in if c = CHR ''n'' then (u, None)
              else if c = CHR ''t'' \<or> c = CHR ''f'' then (u, Some (UnmarshalTypeError ''bool''))
              else if c = CHR 0x22 then (u, Some (UnmarshalTypeError ''string''))
              else (u, Some (UnmarshalTypeError ''number''))))"

definition json_Unmarshal :: "string \<Rightarrow> WebAppUser \<Rightarrow> WebAppUser \<times> json_error option" where
  "json_Unmarshal data v =
     (case json_parse data of
        None \<Rightarrow> (v, Some SyntaxError)
      | Some t \<Rightarrow> decode_value t v)"

subsection \<open>The user decoder: decodeUserData (lines 142 to 154)\<close>

definition decodeUserData :: "string \<Rightarrow> WebAppUser \<times> error option" where
  "decodeUserData encodedData =
     (case QueryUnescape encodedData of
        Inl err \<Rightarrow> (WebAppUser_zero, Some (UrlUnescapeFailed err))
      | Inr decodedData \<Rightarrow>
          (case json_Unmarshal decodedData WebAppUser_zero of
             (user, Some err) \<Rightarrow> (user, Some (JsonDecodeFailed err))
           | (user, None) \<Rightarrow> (user, None)))"

text \<open>
  For the statements about the decoder: \<open>unmarshal_user\<close> is lines 148 to 153, what
  the decoder does with the text that the unescaping returns. \<open>percent_decode\<close> is the
  specification's percent-decoding pass, for comparison with \<open>QueryUnescape\<close>: a \<open>+\<close>
  becomes a space, a \<open>%\<close> followed by two hexadecimal digits becomes the byte they
  denote, any other \<open>%\<close> makes the pass fail, and every other byte is kept.
  \<open>starts_with_two_hex\<close> says that a string begins with two hexadecimal digits.
\<close>

definition unmarshal_user :: "string \<Rightarrow> WebAppUser \<times> error option" where
  "unmarshal_user decodedData =
     (case json_Unmarshal decodedData WebAppUser_zero of
        (user, Some err) \<Rightarrow> (user, Some (JsonDecodeFailed err))
      | (user, None) \<Rightarrow> (user, None))"

fun percent_decode :: "string \<Rightarrow> string option" where
  "percent_decode [] = Some []"
| "percent_decode (c # s) =
     (if c = CHR ''%''
      then (case s of
              h1 # h2 # r \<Rightarrow>
                (if ishex h1 \<and> ishex h2
                 then map_option ((#) (char_of (uint (push_bit 4 (unhex h1) OR unhex h2)))) (percent_decode r)
                 else None)
            | _ \<Rightarrow> None)
      else map_option ((#) (if c = CHR ''+'' then CHR '' '' else c)) (percent_decode s))"

definition starts_with_two_hex :: "string \<Rightarrow> bool" where
  "starts_with_two_hex b = (case b of h1 # h2 # r \<Rightarrow> ishex h1 \<and> ishex h2 | _ \<Rightarrow> False)"

subsection \<open>VerifyWebAppData (lines 44 to 63)\<close>

text \<open>
  The function returns a pair: the profile and the error (\<open>None\<close> is \<^verbatim>\<open>nil\<close>).
  \<open>now\<close> is the reading of the clock that \<^verbatim>\<open>time.Since\<close> takes in the timestamp
  check.
\<close>

definition VerifyWebAppData :: "Time \<Rightarrow> string \<Rightarrow> string \<Rightarrow> WebAppUser \<times> error option" where
  "VerifyWebAppData now telegramInitData token =
     (case parseInitData telegramInitData of
        (params, hashValue, Some err) \<Rightarrow> (WebAppUser_zero, Some (ParsingFailed err))
      | (params, hashValue, None) \<Rightarrow>
          (case validateRequiredFields params of
             Some err \<Rightarrow> (WebAppUser_zero, Some err)
           | None \<Rightarrow>
               (case validateAuthTimestamp now (index params ''auth_date'') of
                  Some err \<Rightarrow> (WebAppUser_zero, Some err)
                | None \<Rightarrow>
                    (case validateDataSignature params hashValue token of
                       Some err \<Rightarrow> (WebAppUser_zero, Some err)
                     | None \<Rightarrow> decodeUserData (index params ''user'')))))"

section \<open>Properties\<close>

text \<open>
  The equations of the loops defined by general recursion are applied by hand: as
  rewrite rules they would unfold without end on an argument that is not a literal.
\<close>

declare blockGeneric.simps [simp del]
declare ConstantTimeCompare_loop.simps [simp del]
declare parseQuery.simps [simp del]
declare unquote_loop.simps [simp del]
declare foldName.simps [simp del]

subsection \<open>The canonical string\<close>

lemma range_pairs_eq:
  "range_pairs ps acc =
     acc @ map (\<lambda>(k, v). k @ ''='' @ v) (filter (\<lambda>(k, v). k \<noteq> ''hash'' \<and> k \<noteq> ''auth_date'') ps)"
  by (induction ps acc rule: range_pairs.induct) simp_all

lemma mset_range_pairs: "mset (range_pairs ps []) = field_lines ps"
  by (simp add: range_pairs_eq field_lines_def)

lemma fold_Join: "fold (\<lambda>s b. b @ sep @ s) es e = e @ concat (map (\<lambda>s. sep @ s) es)"
  by (induction es arbitrary: e) simp_all

lemma strings_Join_Cons: "strings_Join (l # ls) sep = l @ concat (map (\<lambda>s. sep @ s) ls)"
  by (cases ls) (simp_all add: fold_Join)

lemma joined_by_newline_Cons:
  "joined_by_newline (l # ls) = l @ concat (map (\<lambda>s. CHR 0x0A # s) ls)"
  by (induction ls arbitrary: l) simp_all

lemma strings_Join_newline: "strings_Join ls [CHR 0x0A] = joined_by_newline ls"
  by (cases ls) (simp_all add: strings_Join_Cons joined_by_newline_Cons)

lemma sorted_arrangement_unique:
  fixes ls :: "string list"
  shows "(mset ls = mset xs \<and> sorted ls) = (ls = sort xs)"
  using properties_for_sort[of ls xs] by auto

lemma createDataCheckString_eq:
  "createDataCheckString params authDate =
     joined_by_newline (sort (range_pairs params [] @ [''auth_date='' @ authDate]))"
  by (simp add: createDataCheckString_def strings_Join_newline)

text \<open>
  Claim C1. For every field map and every \<open>authDate\<close>, the lines \<open>key=value\<close> of the
  fields other than \<open>hash\<close> and \<open>auth_date\<close> (the values as they are in the map), together
  with the one line \<open>auth_date=authDate\<close>, have exactly one arrangement in increasing
  order of the whole line, and the canonical string is that arrangement with one
  newline between consecutive lines and none after the last.
\<close>

theorem createDataCheckString_sorted_lines:
  "\<exists>lines.
     (\<forall>ls. (mset ls = field_lines params + {#''auth_date='' @ authDate#} \<and> sorted ls) = (ls = lines))
     \<and> createDataCheckString params authDate = joined_by_newline lines"
proof -
  let ?xs = "range_pairs params [] @ [''auth_date='' @ authDate]"
  have "mset ?xs = field_lines params + {#''auth_date='' @ authDate#}"
    by (simp add: mset_range_pairs)
  then have "\<forall>ls. (mset ls = field_lines params + {#''auth_date='' @ authDate#} \<and> sorted ls)
      = (ls = sort ?xs)"
    using sorted_arrangement_unique[of _ ?xs] by simp
  then show ?thesis
    using createDataCheckString_eq by blast
qed

lemma field_lines_filter:
  "field_lines xs =
     image_mset (\<lambda>(k, v). k @ ''='' @ v)
       (filter_mset (\<lambda>(k, v). k \<noteq> ''auth_date'') (mset (filter (\<lambda>(k, v). k \<noteq> ''hash'') xs)))"
  by (simp add: field_lines_def filter_filter_mset split_def conj_commute)

lemma field_lines_cong:
  assumes "distinct (map fst ps)" "distinct (map fst qs)"
    and "set (filter (\<lambda>(k, v). k \<noteq> ''hash'') ps) = set (filter (\<lambda>(k, v). k \<noteq> ''hash'') qs)"
  shows "field_lines ps = field_lines qs"
proof -
  let ?P = "\<lambda>(k, v). k \<noteq> ''hash''"
  have "distinct (filter ?P ps)" "distinct (filter ?P qs)"
    using assms(1,2) by (simp_all add: distinct_map)
  then have "mset (filter ?P ps) = mset (filter ?P qs)"
    using assms(3) set_eq_iff_mset_eq_distinct by blast
  then show ?thesis
    by (simp only: field_lines_filter)
qed

lemma createDataCheckString_cong:
  assumes "field_lines ps = field_lines qs"
  shows "createDataCheckString ps a = createDataCheckString qs a"
proof -
  let ?P = "range_pairs ps [] @ [''auth_date='' @ a]"
  let ?Q = "range_pairs qs [] @ [''auth_date='' @ a]"
  have "mset ?P = mset ?Q"
    using assms by (simp add: mset_range_pairs)
  then have "sort ?P = sort ?Q"
    using properties_for_sort[of "sort ?Q" ?P] by simp
  then show ?thesis
    by (simp add: createDataCheckString_eq)
qed

text \<open>
  Claim C7. Two field maps (keys distinct, entries in any order) that hold the same set
  of key/value pairs once \<open>hash\<close> is left out have the same canonical string for the same
  \<open>auth_date\<close>. In particular the order of the entries, which is the order of insertion
  or of iteration, does not matter.
\<close>

theorem createDataCheckString_order_independent:
  assumes "distinct (map fst ps)" and "distinct (map fst qs)"
    and "set (filter (\<lambda>(k, v). k \<noteq> ''hash'') ps) = set (filter (\<lambda>(k, v). k \<noteq> ''hash'') qs)"
  shows "createDataCheckString ps a = createDataCheckString qs a"
  using assms by (intro createDataCheckString_cong field_lines_cong)

theorem createDataCheckString_order_independent_witness:
  "createDataCheckString
      [(''user'', ''u''), (''hash'', ''abc''), (''query_id'', ''q''), (''auth_date'', ''1'')] ''1''
   = createDataCheckString
      [(''auth_date'', ''1''), (''query_id'', ''q''), (''hash'', ''xyz''), (''user'', ''u'')] ''1''
   \<and> createDataCheckString
      [(''user'', ''u''), (''hash'', ''abc''), (''query_id'', ''q''), (''auth_date'', ''1'')] ''1''
     = ''auth_date=1'' @ [CHR 0x0A] @ ''query_id=q'' @ [CHR 0x0A] @ ''user=u''"
proof -
  have "createDataCheckString
      [(''user'', ''u''), (''hash'', ''abc''), (''query_id'', ''q''), (''auth_date'', ''1'')] ''1''
   = createDataCheckString
      [(''auth_date'', ''1''), (''query_id'', ''q''), (''hash'', ''xyz''), (''user'', ''u'')] ''1''"
    by (rule createDataCheckString_order_independent) auto
  moreover have "createDataCheckString
      [(''user'', ''u''), (''hash'', ''abc''), (''query_id'', ''q''), (''auth_date'', ''1'')] ''1''
     = ''auth_date=1'' @ [CHR 0x0A] @ ''query_id=q'' @ [CHR 0x0A] @ ''user=u''"
    by (simp add: createDataCheckString_def)
  ultimately show ?thesis by simp
qed

subsection \<open>The signer\<close>

lemma length_round256: "length (round256 kw s) = length s"
  by (cases "(kw, s)" rule: round256.cases) (simp_all add: Let_def)

lemma length_fold_round256: "length (fold round256 kws s) = length s"
  by (induction kws arbitrary: s) (simp_all add: length_round256)

lemma length_block: "length (block hs p) = length hs"
  by (simp add: block_def length_fold_round256)

lemma length_blockGeneric: "length (blockGeneric hs p) = length hs"
proof (induction hs p rule: blockGeneric.induct)
  case (1 hs p)
  then show ?case
    by (subst blockGeneric.simps) (simp add: length_block)
qed

lemma length_be_bytes: "length (be_bytes n x) = n"
  by (simp add: be_bytes_def)

lemma length_concat_be_bytes: "length (concat (map (be_bytes 4) ws)) = 4 * length ws"
  by (induction ws) (simp_all add: length_be_bytes)

lemma length_sha256_Sum256: "length (sha256_Sum256 msg) = 32"
  by (simp add: sha256_Sum256_def length_concat_be_bytes length_blockGeneric init256_def)

lemma hmac_object_eq: "hmac_Sum (hmac_Write (hmac_New key) message) [] = HMAC_SHA256 key message"
  by (simp add: hmac_Sum_def hmac_Write_def hmac_New_def HMAC_SHA256_def Let_def)

lemma computeHMAC_eq:
  "computeHMAC s t = hex_EncodeToString (HMAC_SHA256 (HMAC_SHA256 ''WebAppData'' t) s)"
  by (simp add: computeHMAC_def Let_def hmac_object_eq)

lemma length_HMAC_SHA256: "length (HMAC_SHA256 key message) = 32"
  by (simp add: HMAC_SHA256_def Let_def length_sha256_Sum256)

lemma length_hex_EncodeToString: "length (hex_EncodeToString src) = 2 * length src"
  by (induction src) (simp_all add: hex_EncodeToString_def)

lemma of_char_less_256: "(of_char c :: nat) < 256"
  by (cases c) simp

lemma hextable_nth: "n < 16 \<Longrightarrow> hextable ! n \<in> set hextable"
  by (rule nth_mem) (simp add: hextable_def)

lemma set_hex_EncodeToString: "set (hex_EncodeToString src) \<subseteq> set hextable"
proof -
  have "hextable ! (of_char c div 16) \<in> set hextable" "hextable ! (of_char c mod 16) \<in> set hextable" for c
    using of_char_less_256[of c] by (auto intro!: hextable_nth simp: less_mult_imp_div_less)
  then show ?thesis
    by (auto simp: hex_EncodeToString_def)
qed

lemma length_computeHMAC: "length (computeHMAC s t) = 64"
  by (simp add: computeHMAC_eq length_hex_EncodeToString length_HMAC_SHA256)

lemma set_computeHMAC: "set (computeHMAC s t) \<subseteq> set hextable"
  by (simp add: computeHMAC_eq set_hex_EncodeToString)

lemma lowercase_hex_digit_iff: "lowercase_hex_digit c = (c \<in> set hextable)"
  unfolding lowercase_hex_digit_def hextable_def ..

lemma list_all_hex_computeHMAC: "list_all lowercase_hex_digit (computeHMAC s t)"
  unfolding list_all_iff lowercase_hex_digit_iff
  using set_computeHMAC[of s t] by blast

text \<open>
  Claim C2. For every canonical string \<open>s\<close> and token \<open>t\<close> the signer, which drives two
  \<^verbatim>\<open>hmac\<close> objects, returns the lower-case hexadecimal encoding of
  HMAC-SHA256 of \<open>s\<close> under the key HMAC-SHA256 of \<open>t\<close> under the key \<open>WebAppData\<close>; the
  result has 64 characters, each a lower-case hexadecimal digit. The signer is a total
  function of \<open>s\<close> and \<open>t\<close>: it has no error result, and the same arguments give the
  same signature.
\<close>

theorem computeHMAC_signature:
  "computeHMAC s t = hex_EncodeToString (HMAC_SHA256 (HMAC_SHA256 ''WebAppData'' t) s)
   \<and> length (computeHMAC s t) = 64
   \<and> list_all lowercase_hex_digit (computeHMAC s t)"
  using computeHMAC_eq[of s t] length_computeHMAC[of s t] list_all_hex_computeHMAC[of s t]
  by (intro conjI)

subsection \<open>The signature check\<close>

lemma unat_of_char_word8: "unat (of_char e :: 8 word) = of_char e"
proof -
  have "(of_char e :: 8 word) = word_of_nat (of_char e)"
    by (simp only: of_nat_of_char)
  then show ?thesis
    using of_char_less_256[of e] by (simp add: unat_of_nat)
qed

lemma of_char_word8_eq_iff: "((of_char c :: 8 word) = of_char d) = (c = d)"
proof
  assume "(of_char c :: 8 word) = of_char d"
  then have "unat (of_char c :: 8 word) = unat (of_char d :: 8 word)"
    by simp
  then show "c = d"
    by (simp add: unat_of_char_word8)
qed simp

lemma word_xor_eq_0_iff: "(a XOR b = 0) = (a = b)" for a b :: "'a::len word"
proof
  assume "a XOR b = 0"
  moreover have "a = (a XOR b) XOR b"
    by (simp add: xor.assoc)
  ultimately show "a = b"
    by simp
qed simp


lemma ConstantTimeCompare_loop_fst:
  "length x = length y \<Longrightarrow> i \<le> length x \<Longrightarrow>
   (fst (ConstantTimeCompare_loop x y v i) = 0) = (v = 0 \<and> drop i x = drop i y)"
proof (induction x y v i rule: ConstantTimeCompare_loop.induct)
  case (1 x y v i)
  show ?case
  proof (cases "i < length x")
    case True
    then have "drop i x = x ! i # drop (Suc i) x" "drop i y = y ! i # drop (Suc i) y"
      using 1(2) by (simp_all add: Cons_nth_drop_Suc)
    moreover have "(of_char (x ! i) XOR of_char (y ! i) = (0 :: 8 word)) = (x ! i = y ! i)"
      by (simp add: word_xor_eq_0_iff of_char_word8_eq_iff)
    ultimately show ?thesis
      using True 1 by (subst ConstantTimeCompare_loop.simps) (auto simp: or_eq_0_iff)
  next
    case False
    then show ?thesis
      using 1(2,3) by (subst ConstantTimeCompare_loop.simps) simp
  qed
qed

lemma ConstantTimeByteEq_zero: "(ConstantTimeByteEq v 0 = 1) = (v = 0)"
proof (cases "v = 0")
  case True
  then show ?thesis
    by (simp add: ConstantTimeByteEq_def)
next
  case False
  define w :: "32 word" where "w = ucast v"
  have v256: "unat v < 256"
    using unsigned_less[of v, where 'a = nat] by simp
  then have "take_bit 32 (unat v) = unat v"
    by (intro take_bit_nat_eq_self) simp
  then have uw: "unat w = unat v"
    by (simp add: w_def unsigned_ucast_eq)
  then have "w \<noteq> 0"
    using False by (metis unat_eq_0)
  then have "unat (w - 1) = unat v - 1"
    by (simp add: unat_minus_one uw)
  with v256 have "drop_bit 31 (unat (w - 1)) = 0"
    by (simp add: drop_bit_eq_div)
  then have "unat (drop_bit 31 (w - 1)) = 0"
    by (simp only: unat_drop_bit_eq)
  then have "drop_bit 31 (w - 1) = 0"
    by (simp only: unat_eq_0)
  then show ?thesis
    using False by (simp add: ConstantTimeByteEq_def flip: w_def)
qed

lemma hmac_Equal_iff: "hmac_Equal x y = (x = y)"
proof (cases "length x = length y")
  case True
  then show ?thesis
    using ConstantTimeCompare_loop_fst[of x y 0 0]
    by (auto simp: hmac_Equal_def hmac_Equal_run_def ConstantTimeCompare_run_def
        ConstantTimeByteEq_zero split: prod.splits)
next
  case False
  then show ?thesis
    by (auto simp: hmac_Equal_def hmac_Equal_run_def ConstantTimeCompare_run_def)
qed

lemma validateDataSignature_iff:
  "validateDataSignature params receivedHash token =
     (if computeHMAC (createDataCheckString params (index params ''auth_date'')) token = receivedHash
      then None else Some ErrInvalidHash)"
  using hmac_Equal_iff[of "computeHMAC (createDataCheckString params (index params ''auth_date'')) token" receivedHash]
  by (auto simp: validateDataSignature_def validateDataSignature_run_def Let_def hmac_Equal_def
      split: prod.splits)




subsection \<open>Arithmetic of int64 and of time\<close>

lemma wrap64_id: "- (2 ^ 63) \<le> x \<Longrightarrow> x < 2 ^ 63 \<Longrightarrow> wrap64 x = x"
  by (simp add: wrap64_def)

lemma wrap64_range: "- (2 ^ 63) \<le> wrap64 x \<and> wrap64 x < 2 ^ 63"
proof -
  have "0 \<le> (x + 2 ^ 63) mod 2 ^ 64" "(x + 2 ^ 63) mod 2 ^ 64 < (2 ^ 64 :: int)"
    by simp_all
  then show ?thesis
    by (simp add: wrap64_def)
qed

lemma wrap64_shift: "\<exists>k. wrap64 x = x + k * 2 ^ 64"
proof -
  have "(x + 2 ^ 63) mod 2 ^ 64 = (x + 2 ^ 63) - ((x + 2 ^ 63) div 2 ^ 64) * 2 ^ 64"
    by (simp add: minus_div_mult_eq_mod)
  then have "wrap64 x = x + (- ((x + 2 ^ 63) div 2 ^ 64)) * 2 ^ 64"
    by (simp add: wrap64_def)
  then show ?thesis ..
qed

lemma wrap64_cong: "(x - y) mod 2 ^ 64 = 0 \<Longrightarrow> wrap64 x = wrap64 y"
proof -
  assume "(x - y) mod 2 ^ 64 = 0"
  then have "(2 ^ 64 :: int) dvd (x + 2 ^ 63) - (y + 2 ^ 63)"
    by (simp add: mod_eq_0_iff_dvd)
  then have "(x + 2 ^ 63) mod 2 ^ 64 = (y + 2 ^ 63) mod 2 ^ 64"
    by (simp only: mod_eq_dvd_iff)
  then show ?thesis
    by (simp add: wrap64_def)
qed

lemma wrap64_mult_left: "wrap64 (wrap64 a * b) = wrap64 (a * b)"
proof -
  obtain k where "wrap64 a = a + k * 2 ^ 64"
    using wrap64_shift by blast
  then have "wrap64 a * b - a * b = (k * b) * 2 ^ 64"
    by (simp add: algebra_simps)
  then show ?thesis
    by (intro wrap64_cong) simp
qed

lemma wrap64_add_left: "wrap64 (wrap64 a + b) = wrap64 (a + b)"
proof -
  obtain k where "wrap64 a = a + k * 2 ^ 64"
    using wrap64_shift by blast
  then have "wrap64 a + b - (a + b) = k * 2 ^ 64"
    by simp
  then show ?thesis
    by (intro wrap64_cong) simp
qed

lemma time_Sub_d:
  "wrap64 (wrap64 (wrap64 (sec t - sec u) * Second) + (nsec t - nsec u)) = wrap64 (exact_difference t u)"
  by (simp add: wrap64_mult_left wrap64_add_left exact_difference_def Second_def)

lemma time_Add_eq:
  assumes "0 \<le> nsec u" "nsec u < 1000000000"
  shows "time_Add u d =
     addSec (u\<lparr>nsec := (d + nsec u) mod 1000000000\<rparr>) ((d + nsec u) div 1000000000)"
proof -
  define q r where "q = d sdiv 1000000000" and "r = d smod 1000000000"
  have d: "d = q * 1000000000 + r"
    by (simp add: q_def r_def sdiv_mult_smod_eq)
  have r: "- 1000000000 < r" "r < 1000000000"
    using smod_int_range[of 1000000000 d] by (simp_all add: r_def)
  consider "r + nsec u \<ge> 1000000000" | "r + nsec u < 0" | "0 \<le> r + nsec u" "r + nsec u < 1000000000"
    by linarith
  then show ?thesis
  proof cases
    case 1
    have "(d + nsec u) div 1000000000 = q + 1"
      by (rule int_div_pos_eq[where r = "r + nsec u - 1000000000"]) (use 1 r assms d in auto)
    moreover have "(d + nsec u) mod 1000000000 = r + nsec u - 1000000000"
      by (rule int_mod_pos_eq[where q = "q + 1"]) (use 1 r assms d in auto)
    ultimately show ?thesis
      using 1 by (simp add: time_Add_def Let_def flip: q_def r_def) (simp add: add.commute)
  next
    case 2
    have "(d + nsec u) div 1000000000 = q - 1"
      by (rule int_div_pos_eq[where r = "r + nsec u + 1000000000"]) (use 2 r assms d in auto)
    moreover have "(d + nsec u) mod 1000000000 = r + nsec u + 1000000000"
      by (rule int_mod_pos_eq[where q = "q - 1"]) (use 2 r assms d in auto)
    ultimately show ?thesis
      using 2 by (simp add: time_Add_def Let_def flip: q_def r_def) (simp add: add.commute)
  next
    case 3
    have "(d + nsec u) div 1000000000 = q"
      by (rule int_div_pos_eq[where r = "r + nsec u"]) (use 3 r assms d in auto)
    moreover have "(d + nsec u) mod 1000000000 = r + nsec u"
      by (rule int_mod_pos_eq[where q = q]) (use 3 r assms d in auto)
    ultimately show ?thesis
      using 3 by (simp add: time_Add_def Let_def flip: q_def r_def) (simp add: add.commute)
  qed
qed

lemma addSec_exact:
  assumes "- (2 ^ 63) \<le> sec w + q" "sec w + q < 2 ^ 63"
  shows "addSec w q = w\<lparr>sec := sec w + q\<rparr>"
  using assms by (simp add: addSec_def Let_def wrap64_id)

lemma addSec_saturated:
  assumes "- (2 ^ 63) \<le> sec w" "sec w < 2 ^ 63" "- (2 ^ 63) \<le> q" "q < 2 ^ 63"
    and "\<not> (- (2 ^ 63) \<le> sec w + q \<and> sec w + q < 2 ^ 63)"
  shows "sec (addSec w q) = 2 ^ 63 - 1 \<or> sec (addSec w q) = - (2 ^ 63 - 1)"
proof (cases "sec w + q \<ge> 2 ^ 63")
  case True
  then have "(sec w + q + 2 ^ 63) mod 2 ^ 64 = sec w + q + 2 ^ 63 - 2 ^ 64"
    using assms by (intro int_mod_pos_eq[where q = 1]) simp_all
  then have "wrap64 (sec w + q) = sec w + q - 2 ^ 64"
    by (simp add: wrap64_def)
  then show ?thesis
    using True assms by (simp add: addSec_def Let_def)
next
  case False
  then have lt: "sec w + q < - (2 ^ 63)"
    using assms by auto
  then have "(sec w + q + 2 ^ 63) mod 2 ^ 64 = sec w + q + 2 ^ 63 + 2 ^ 64"
    using assms by (intro int_mod_pos_eq[where q = "- 1"]) simp_all
  then have "wrap64 (sec w + q) = sec w + q + 2 ^ 64"
    by (simp add: wrap64_def)
  then show ?thesis
    using lt assms by (simp add: addSec_def Let_def)
qed

lemma time_Sub_eq:
  assumes t: "valid_Time t" and u: "valid_Time u"
    and sat: "sec t \<noteq> 2 ^ 63 - 1" "sec t \<noteq> - (2 ^ 63 - 1)"
  shows "time_Sub t u =
     (if - (2 ^ 63) \<le> exact_difference t u \<and> exact_difference t u < 2 ^ 63 then exact_difference t u
      else if exact_difference t u < 0 then minDuration else maxDuration)"
proof -
  define D where "D = exact_difference t u"
  define d where "d = wrap64 D"
  define q n where "q = (d + nsec u) div 1000000000" and "n = (d + nsec u) mod 1000000000"
  have D: "D = (sec t - sec u) * 1000000000 + (nsec t - nsec u)"
    by (simp add: D_def exact_difference_def)
  have d_range: "- (2 ^ 63) \<le> d" "d < 2 ^ 63"
    using wrap64_range[of D] by (simp_all add: d_def)
  have qn: "d + nsec u = q * 1000000000 + n" "0 \<le> n" "n < 1000000000"
    by (simp_all add: q_def n_def)
  have q_range: "- (2 ^ 63) \<le> q" "q < 2 ^ 63"
    using qn d_range u by (auto simp: valid_Time_def)
  have add: "time_Add u d = addSec (u\<lparr>nsec := n\<rparr>) q"
    using time_Add_eq[of u d] u by (simp add: valid_Time_def q_def n_def)
  have sub: "time_Sub t u =
     (if time_Equal (addSec (u\<lparr>nsec := n\<rparr>) q) t then d
      else if time_Before t u then minDuration else maxDuration)"
    by (simp add: time_Sub_def Let_def time_Sub_d add flip: D_def d_def)
  show ?thesis
  proof (cases "- (2 ^ 63) \<le> D \<and> D < 2 ^ 63")
    case True
    then have dD: "d = D"
      by (simp add: d_def wrap64_id)
    have "D + nsec u = (sec t - sec u) * 1000000000 + nsec t"
      by (simp add: D)
    moreover have "0 \<le> nsec t" "nsec t < 1000000000"
      using t by (simp_all add: valid_Time_def)
    ultimately have "q = sec t - sec u" "n = nsec t"
      unfolding q_def n_def dD
      by (simp_all add: int_div_pos_eq[where r = "nsec t"] int_mod_pos_eq[where q = "sec t - sec u"])
    then have "addSec (u\<lparr>nsec := n\<rparr>) q = u\<lparr>nsec := nsec t, sec := sec t\<rparr>"
      using t by (subst addSec_exact) (auto simp: valid_Time_def)
    then have "time_Equal (addSec (u\<lparr>nsec := n\<rparr>) q) t"
      by (simp add: time_Equal_def)
    then show ?thesis
      using True by (simp add: sub dD flip: D_def)
  next
    case False
    have neq: "\<not> time_Equal (addSec (u\<lparr>nsec := n\<rparr>) q) t"
    proof
      assume eq: "time_Equal (addSec (u\<lparr>nsec := n\<rparr>) q) t"
      show False
      proof (cases "- (2 ^ 63) \<le> sec u + q \<and> sec u + q < 2 ^ 63")
        case True
        then have "addSec (u\<lparr>nsec := n\<rparr>) q = u\<lparr>nsec := n, sec := sec u + q\<rparr>"
          by (subst addSec_exact) auto
        with eq have "sec u + q = sec t" "n = nsec t"
          by (simp_all add: time_Equal_def)
        with qn(1) have "d = D"
          by (simp add: D algebra_simps)
        with d_range False show False
          by simp
      next
        case False
        then have "sec (addSec (u\<lparr>nsec := n\<rparr>) q) = 2 ^ 63 - 1 \<or> sec (addSec (u\<lparr>nsec := n\<rparr>) q) = - (2 ^ 63 - 1)"
          using u q_range by (intro addSec_saturated) (auto simp: valid_Time_def)
        with eq sat show False
          by (auto simp: time_Equal_def)
      qed
    qed
    have "time_Before t u = (D < 0)"
    proof -
      have "0 \<le> nsec t" "nsec t < 1000000000" "0 \<le> nsec u" "nsec u < 1000000000"
        using t u by (simp_all add: valid_Time_def)
      then show ?thesis
        unfolding time_Before_def D by (cases "sec t < sec u"; cases "sec t = sec u") auto
    qed
    with False neq show ?thesis
      unfolding sub D_def[symmetric] by auto
  qed
qed

subsection \<open>The timestamp check\<close>

lemma of_char_int_nat: "(of_char c :: int) = int (of_char c)"
  by (simp only: of_nat_of_char)

lemma char_le_iff_int: "(c \<le> d) = ((of_char c :: int) \<le> of_char d)"
  by (simp add: less_eq_char_def of_char_int_nat)

lemma of_char_int_range: "0 \<le> (of_char c :: int) \<and> (of_char c :: int) < 256"
  using of_char_less_256[of c] by (simp add: of_char_int_nat)

lemma digit_value_digit:
  "(\<exists>d. digit_value c = Some d \<and> d < 10) = is_digit c"
  "is_digit c \<Longrightarrow> digit_value c = Some (of_char c - 48)"
  "is_digit c \<Longrightarrow> 0 \<le> (of_char c :: int) - 48 \<and> (of_char c :: int) - 48 \<le> 9"
  by (auto simp: digit_value_def is_digit_def char_le_iff_int)

lemma foldl_digits_mono:
  "list_all is_digit ds \<Longrightarrow> 0 \<le> n \<Longrightarrow> n \<le> foldl (\<lambda>n c. n * 10 + (of_char c - 48)) n ds"
  for n :: int
proof (induction ds arbitrary: n)
  case (Cons c ds)
  then have "0 \<le> (of_char c :: int) - 48"
    using digit_value_digit(3)[of c] by simp
  then have "n \<le> n * 10 + (of_char c - 48)" "0 \<le> n * 10 + (of_char c - 48)"
    using Cons.prems(2) by simp_all
  moreover have "n * 10 + (of_char c - 48) \<le> foldl (\<lambda>n c. n * 10 + (of_char c - 48)) (n * 10 + (of_char c - 48)) ds"
    using Cons calculation by simp
  ultimately show ?case
    by simp
qed simp

lemma ParseUint_loop_Inr_iff:
  "0 \<le> n \<Longrightarrow> n < 2 ^ 64 \<Longrightarrow>
   (ParseUint_loop ds n = Inr m) =
     (list_all is_digit ds \<and> m = foldl (\<lambda>n c. n * 10 + (of_char c - 48)) n ds \<and> m < 2 ^ 64)"
proof (induction ds arbitrary: n)
  case Nil
  then show ?case by auto
next
  case (Cons c ds)
  show ?case
  proof (cases "is_digit c")
    case False
    then have "digit_value c = None \<or> (\<exists>d. digit_value c = Some d \<and> \<not> d < 10)"
      using digit_value_digit(1)[of c] by (cases "digit_value c") auto
    then have "ParseUint_loop (c # ds) n = Inl ErrSyntax"
      by auto
    then show ?thesis
      using False by simp
  next
    case True
    define d where "d = (of_char c :: int) - 48"
    have dv: "digit_value c = Some d" and d: "0 \<le> d" "d \<le> 9"
      using True digit_value_digit(2,3)[of c] by (simp_all add: d_def)
    have mono: "n * 10 + d \<le> foldl (\<lambda>n c. n * 10 + (of_char c - 48)) (n * 10 + d) ds" if "list_all is_digit ds"
      using that Cons.prems d by (intro foldl_digits_mono) simp_all
    consider "n \<ge> 1844674407370955162" | "n < 1844674407370955162" "n * 10 + d \<ge> 2 ^ 64"
      | "n < 1844674407370955162" "n * 10 + d < 2 ^ 64"
      by linarith
    then show ?thesis
    proof cases
      case 1
      then have "ParseUint_loop (c # ds) n = Inl ErrRange"
        using dv d by simp
      moreover have "n * 10 + d \<ge> 2 ^ 64"
        using 1 d by simp
      ultimately show ?thesis
        using mono by (auto simp: d_def)
    next
      case 2
      have n10: "(n * 10) mod 2 ^ 64 = n * 10"
        using 2 Cons.prems by simp
      have "(n * 10 + d) mod 2 ^ 64 = n * 10 + d - 2 ^ 64"
        using 2 d by (intro int_mod_pos_eq[where q = 1]) simp_all
      then have "ParseUint_loop (c # ds) n = Inl ErrRange"
        using dv d 2 n10 by (simp add: Let_def)
      then show ?thesis
        using mono 2 by (auto simp: d_def)
    next
      case 3
      have n10: "(n * 10) mod 2 ^ 64 = n * 10"
        using 3 Cons.prems by simp
      have n1: "(n * 10 + d) mod 2 ^ 64 = n * 10 + d"
        using 3 d Cons.prems by simp
      have "ParseUint_loop (c # ds) n = ParseUint_loop ds (n * 10 + d)"
        using dv d 3 n10 n1 by (simp add: Let_def)
      moreover have "0 \<le> n * 10 + d"
        using Cons.prems d by simp
      ultimately show ?thesis
        using Cons.IH[of "n * 10 + d"] 3 True by (simp add: d_def)
    qed
  qed
qed

lemma ParseUint_Inr_iff:
  "(ParseUint ds = Inr m) = (decimal_digits ds \<and> m = decimal_value ds \<and> m < 2 ^ 64)"
  using ParseUint_loop_Inr_iff[of 0 ds m]
  by (auto simp: ParseUint_def decimal_digits_def decimal_value_def)

lemma decimal_value_nonneg: "decimal_digits ds \<Longrightarrow> 0 \<le> decimal_value ds"
  unfolding decimal_digits_def decimal_value_def
  using foldl_digits_mono[of ds "0 :: int"] by simp

lemma ParseInt_Cons:
  "ParseInt (c # r) =
     (case ParseUint (if c = CHR ''+'' \<or> c = CHR ''-'' then r else c # r) of
        Inl e \<Rightarrow> Inl e
      | Inr un \<Rightarrow>
          if c \<noteq> CHR ''-'' \<and> un \<ge> 2 ^ 63 then Inl ErrRange
          else if c = CHR ''-'' \<and> un > 2 ^ 63 then Inl ErrRange
          else Inr (if c = CHR ''-'' then - un else un))"
  by (simp add: ParseInt_def Let_def split: sum.splits num_error.splits)

lemma signed_decimal_Cons:
  "signed_decimal (c # r) =
     (if decimal_digits (if c = CHR ''+'' \<or> c = CHR ''-'' then r else c # r)
      then Some (if c = CHR ''-'' then - decimal_value r
                 else if c = CHR ''+'' then decimal_value r else decimal_value (c # r))
      else None)"
  by (simp add: signed_decimal_def)

lemma ParseInt_Inr_iff:
  "(ParseInt s = Inr a) = (signed_decimal s = Some a \<and> - (2 ^ 63) \<le> a \<and> a < 2 ^ 63)"
proof (cases s)
  case Nil
  then show ?thesis
    by (simp add: ParseInt_def signed_decimal_def)
next
  case (Cons c r)
  define s1 where "s1 = (if c = CHR ''+'' \<or> c = CHR ''-'' then r else c # r)"
  have val: "(if c = CHR ''-'' then - decimal_value r
      else if c = CHR ''+'' then decimal_value r else decimal_value (c # r))
    = (if c = CHR ''-'' then - decimal_value s1 else decimal_value s1)"
    by (simp add: s1_def)
  show ?thesis
  proof (cases "ParseUint s1")
    case (Inl e)
    then have "\<not> (decimal_digits s1 \<and> decimal_value s1 < 2 ^ 64)"
      using ParseUint_Inr_iff[of s1 "decimal_value s1"] by auto
    moreover have "decimal_digits s1 \<Longrightarrow> \<bar>decimal_value s1\<bar> = decimal_value s1"
      using decimal_value_nonneg[of s1] by simp
    ultimately show ?thesis
      using Inl unfolding Cons ParseInt_Cons signed_decimal_Cons val s1_def[symmetric]
      by (auto split: if_splits)
  next
    case (Inr un)
    then have un: "decimal_digits s1" "un = decimal_value s1" "un < 2 ^ 64"
      using ParseUint_Inr_iff[of s1 un] by simp_all
    then have "0 \<le> un"
      using decimal_value_nonneg by simp
    then show ?thesis
      using Inr un unfolding Cons ParseInt_Cons signed_decimal_Cons val s1_def[symmetric]
      by (auto split: if_splits)
  qed
qed

lemma time_Unix_zero: "time_Unix a 0 = \<lparr>sec = wrap64 (a + unixToInternal), nsec = 0\<rparr>"
  by (simp add: time_Unix_def unixTime_def)

lemma valid_time_Unix: "valid_Time (time_Unix a 0)"
  using wrap64_range[of "a + unixToInternal"] by (simp add: time_Unix_zero valid_Time_def)

lemma validateAuthTimestamp_eq:
  assumes "ParseInt s = Inr a" and "valid_Time now"
    and "sec now \<noteq> 2 ^ 63 - 1" and "sec now \<noteq> - (2 ^ 63 - 1)"
  shows "validateAuthTimestamp now s =
     (if exact_difference now (time_Unix a 0) > 86400000000000 then Some ErrDataExpired else None)"
proof -
  have "(time_Sub now (time_Unix a 0) > 86400000000000) = (exact_difference now (time_Unix a 0) > 86400000000000)"
    using time_Sub_eq[OF assms(2) valid_time_Unix assms(3,4), of a]
    by (auto simp: minDuration_def maxDuration_def)
  then show ?thesis
    using assms(1)
    by (simp add: validateAuthTimestamp_def time_Since_def MaxDataAge_def Hour_def Second_def Let_def)
qed

lemma unixToInternal_eq: "unixToInternal = 62135596800"
  by (simp add: unixToInternal_def)

lemma validateAuthTimestamp_clock:
  assumes "ParseInt str = Inr a" and "a < 2 ^ 63 - 62135596800"
    and "0 \<le> s" "s < 2 ^ 62" "0 \<le> ns" "ns < 1000000000"
  shows "validateAuthTimestamp (clock s ns) str =
     (if (s - a) * 1000000000 + ns > 86400000000000 then Some ErrDataExpired else None)"
proof -
  have a: "- (2 ^ 63) \<le> a"
    using assms(1) by (simp add: ParseInt_Inr_iff)
  then have "wrap64 (a + unixToInternal) = a + unixToInternal"
    using assms(2) by (intro wrap64_id) (simp_all add: unixToInternal_eq)
  then have "exact_difference (clock s ns) (time_Unix a 0) = (s - a) * 1000000000 + ns"
    by (simp add: exact_difference_def clock_def time_Unix_zero)
  moreover have "valid_Time (clock s ns)" "sec (clock s ns) \<noteq> 2 ^ 63 - 1" "sec (clock s ns) \<noteq> - (2 ^ 63 - 1)"
    using assms(3-6) by (simp_all add: valid_Time_def clock_def unixToInternal_eq)
  ultimately show ?thesis
    using validateAuthTimestamp_eq[OF assms(1), of "clock s ns"] by simp
qed

text \<open>
  Claim C4, as amended. Let the clock read \<open>s\<close> seconds and \<open>ns\<close> nanoseconds after the
  Unix epoch (\<open>s\<close> from 0 to below \<open>2^62\<close>). The timestamp check fails with
  \<open>ErrAuthDateInvalid\<close> exactly when \<open>auth_date\<close> is not a decimal numeral with an
  optional sign whose value is in the range of \<^verbatim>\<open>int64\<close>. For a numeral with a value
  \<open>a\<close> from \<open>-2^63\<close> to below \<open>2^63 - 62135596800\<close> it fails with \<open>ErrDataExpired\<close>
  exactly when the clock is more than 24 hours after \<open>a\<close>, to the nanosecond, and
  succeeds otherwise: \<open>a = s - 86400 - 1\<close> is expired, \<open>a = s - 86400 + 1\<close> is accepted,
  and every timestamp in the future is accepted. (The statement leaves out the
  timestamps from \<open>2^63 - 62135596800\<close> on.)
\<close>

theorem validateAuthTimestamp_characterisation:
  assumes "0 \<le> s" and "s < 2 ^ 62" and "0 \<le> ns" and "ns < 1000000000"
  shows
   "((\<exists>e. validateAuthTimestamp (clock s ns) str = Some (ErrAuthDateInvalid e))
       = (\<forall>a. signed_decimal str = Some a \<longrightarrow> a < - (2 ^ 63) \<or> 2 ^ 63 \<le> a))
    \<and> (\<forall>a. signed_decimal str = Some a \<and> - (2 ^ 63) \<le> a \<and> a < 2 ^ 63 - 62135596800 \<longrightarrow>
          (validateAuthTimestamp (clock s ns) str = Some ErrDataExpired)
             = ((s - a) * 1000000000 + ns > 86400 * 1000000000)
        \<and> (validateAuthTimestamp (clock s ns) str = None)
             = ((s - a) * 1000000000 + ns \<le> 86400 * 1000000000)
        \<and> (a = s - 86400 - 1 \<longrightarrow> validateAuthTimestamp (clock s ns) str = Some ErrDataExpired)
        \<and> (a = s - 86400 + 1 \<longrightarrow> validateAuthTimestamp (clock s ns) str = None)
        \<and> (s < a \<longrightarrow> validateAuthTimestamp (clock s ns) str = None))"
proof (intro conjI allI impI)
  show "(\<exists>e. validateAuthTimestamp (clock s ns) str = Some (ErrAuthDateInvalid e))
       = (\<forall>a. signed_decimal str = Some a \<longrightarrow> a < - (2 ^ 63) \<or> 2 ^ 63 \<le> a)"
  proof (cases "ParseInt str")
    case (Inl e)
    have "a < - (2 ^ 63) \<or> 2 ^ 63 \<le> a" if "signed_decimal str = Some a" for a
    proof (rule ccontr)
      assume "\<not> (a < - (2 ^ 63) \<or> 2 ^ 63 \<le> a)"
      with that have "ParseInt str = Inr a"
        by (simp add: ParseInt_Inr_iff)
      with Inl show False
        by simp
    qed
    then show ?thesis
      using Inl by (simp add: validateAuthTimestamp_def)
  next
    case (Inr a)
    then have "signed_decimal str = Some a \<and> - (2 ^ 63) \<le> a \<and> a < 2 ^ 63"
      by (simp add: ParseInt_Inr_iff)
    then show ?thesis
      using Inr by (auto simp: validateAuthTimestamp_def Let_def)
  qed
next
  fix a
  assume a: "signed_decimal str = Some a \<and> - (2 ^ 63) \<le> a \<and> a < 2 ^ 63 - 62135596800"
  then have "ParseInt str = Inr a"
    by (simp add: ParseInt_Inr_iff)
  then have v: "validateAuthTimestamp (clock s ns) str =
     (if (s - a) * 1000000000 + ns > 86400000000000 then Some ErrDataExpired else None)"
    using a assms by (intro validateAuthTimestamp_clock) simp_all
  show "(validateAuthTimestamp (clock s ns) str = Some ErrDataExpired)
             = ((s - a) * 1000000000 + ns > 86400 * 1000000000)"
    by (simp add: v)
  show "(validateAuthTimestamp (clock s ns) str = None)
             = ((s - a) * 1000000000 + ns \<le> 86400 * 1000000000)"
    by (simp add: v)
  show "validateAuthTimestamp (clock s ns) str = Some ErrDataExpired" if "a = s - 86400 - 1"
    using that assms by (simp add: v)
  show "validateAuthTimestamp (clock s ns) str = None" if "a = s - 86400 + 1"
    using that assms by (simp add: v)
  show "validateAuthTimestamp (clock s ns) str = None" if "s < a"
    using that assms by (simp add: v)
qed

theorem validateAuthTimestamp_characterisation_witness:
  "validateAuthTimestamp (clock 1700000000 999999999) ''1699913601'' = None
   \<and> validateAuthTimestamp (clock 1700000000 0) ''1699913599'' = Some ErrDataExpired
   \<and> validateAuthTimestamp (clock 1700000000 0) ''1700000300'' = None
   \<and> (\<exists>e. validateAuthTimestamp (clock 1700000000 0) ''not-a-number'' = Some (ErrAuthDateInvalid e))"
proof -
  have sd: "signed_decimal ''1699913601'' = Some 1699913601"
    "signed_decimal ''1699913599'' = Some 1699913599"
    "signed_decimal ''1700000300'' = Some 1700000300"
    "signed_decimal ''not-a-number'' = None"
    by code_simp+
  show ?thesis
    using validateAuthTimestamp_characterisation[of 1700000000 999999999 "''1699913601''"]
      validateAuthTimestamp_characterisation[of 1700000000 0 "''1699913599''"]
      validateAuthTimestamp_characterisation[of 1700000000 0 "''1700000300''"]
      validateAuthTimestamp_characterisation[of 1700000000 0 "''not-a-number''"]
    by (simp add: sd)
qed

text \<open>
  Claim C4 as stated does not hold. The largest \<^verbatim>\<open>int64\<close> is a timestamp far in the
  future, and the check answers \<open>ErrDataExpired\<close>: \<^verbatim>\<open>time.Unix\<close> adds
  \<open>unixToInternal\<close> in \<^verbatim>\<open>int64\<close> arithmetic, the sum wraps around to a time long
  past, and \<^verbatim>\<open>time.Since\<close> returns the largest duration. And a decimal numeral
  beyond the range of \<^verbatim>\<open>int64\<close> is answered with \<open>ErrAuthDateInvalid\<close>.
\<close>

theorem validateAuthTimestamp_counterexample:
  "signed_decimal ''9223372036854775807'' = Some 9223372036854775807
   \<and> validateAuthTimestamp (clock 1700000000 0) ''9223372036854775807'' = Some ErrDataExpired
   \<and> signed_decimal ''99999999999999999999'' = Some 99999999999999999999
   \<and> validateAuthTimestamp (clock 1700000000 0) ''99999999999999999999'' = Some (ErrAuthDateInvalid ErrRange)"
  by code_simp

subsection \<open>The required-field check\<close>

lemma index_empty_iff: "(index params k = []) = absent_or_empty params k"
  by (simp add: index_def absent_or_empty_def split: option.splits)

text \<open>
  Claim C3, as amended. The required-field check looks at \<open>hash\<close>, then \<open>user\<close>, then
  \<open>auth_date\<close>, and reports the first that is absent or empty: \<open>ErrInvalidHash\<close> for
  \<open>hash\<close>, \<open>ErrUserFieldMissing\<close> for \<open>user\<close>, \<open>ErrAuthDateMissing\<close> for \<open>auth_date\<close>.
  The error for a missing hash is the error of a signature mismatch: the signature
  check returns no other error than \<open>ErrInvalidHash\<close>.
\<close>

theorem validateRequiredFields_precedence:
  "validateRequiredFields params =
     (if absent_or_empty params ''hash'' then Some ErrInvalidHash
      else if absent_or_empty params ''user'' then Some ErrUserFieldMissing
      else if absent_or_empty params ''auth_date'' then Some ErrAuthDateMissing
      else None)
   \<and> (validateDataSignature params receivedHash token = None
        \<or> validateDataSignature params receivedHash token = Some ErrInvalidHash)"
  by (simp add: validateRequiredFields_def index_empty_iff validateDataSignature_iff)

lemma computeHMAC_neq: "length h \<noteq> 64 \<Longrightarrow> computeHMAC s t \<noteq> h"
  using length_computeHMAC[of s t] by auto

text \<open>
  Claim C3 as stated does not hold: a payload without \<open>hash\<close> and without \<open>user\<close> is
  answered with \<open>ErrInvalidHash\<close>, the very error that a wrong signature is answered
  with; the package has no separate error for a missing hash.
\<close>

theorem missing_hash_is_ErrInvalidHash:
  "validateRequiredFields [(''auth_date'', ''1625097522'')] = Some ErrInvalidHash
   \<and> validateDataSignature [(''user'', ''{\"id\":123456789}''), (''auth_date'', ''1625097522'')]
        ''invalid_hash_value'' ''wrong_token'' = Some ErrInvalidHash
   \<and> snd (VerifyWebAppData (clock 1625097522 0) ''auth_date=1625097522'' ''test_token'') = Some ErrInvalidHash"
proof -
  have "validateRequiredFields [(''auth_date'', ''1625097522'')] = Some ErrInvalidHash"
    by (simp add: validateRequiredFields_def index_def)
  moreover have "validateDataSignature [(''user'', ''{\"id\":123456789}''), (''auth_date'', ''1625097522'')]
        ''invalid_hash_value'' ''wrong_token'' = Some ErrInvalidHash"
    by (simp add: validateDataSignature_iff computeHMAC_neq)
  moreover have "parseInitData ''auth_date=1625097522'' = ([(''auth_date'', ''1625097522'')], [], None)"
    by code_simp
  then have "snd (VerifyWebAppData (clock 1625097522 0) ''auth_date=1625097522'' ''test_token'') = Some ErrInvalidHash"
    by (simp add: VerifyWebAppData_def validateRequiredFields_def index_def)
  ultimately show ?thesis
    by simp
qed

subsection \<open>The payload parser\<close>

text \<open>
  A payload is built by appending \<open>&hash=\<close> and the signature to the encoded fields.
  The lemmas below follow \<^verbatim>\<open>url.ParseQuery\<close> through such a payload for a signature
  that is not evaluated: it is a string of hexadecimal digits, which the parser leaves
  as it is.
\<close>

lemma strings_Cut_notin: "c \<notin> set s \<Longrightarrow> strings_Cut s c = (s, [])"
proof -
  assume "c \<notin> set s"
  then have "\<forall>x\<in>set s. x \<noteq> c"
    by auto
  then have "takeWhile (\<lambda>x. x \<noteq> c) s = s \<and> dropWhile (\<lambda>x. x \<noteq> c) s = []"
    by (induction s) auto
  then show ?thesis
    unfolding strings_Cut_def by (simp del: dropWhile_eq_Nil_conv takeWhile_eq_all_conv)
qed

lemma strings_Cut_append: "c \<notin> set a \<Longrightarrow> strings_Cut (a @ c # b) c = (a, b)"
proof -
  assume "c \<notin> set a"
  then have "\<And>x. x \<in> set a \<Longrightarrow> x \<noteq> c"
    by auto
  then have "takeWhile (\<lambda>x. x \<noteq> c) (a @ c # b) = a" "dropWhile (\<lambda>x. x \<noteq> c) (a @ c # b) = c # b"
    by simp_all
  then show ?thesis
    by (simp add: strings_Cut_def)
qed

lemma strings_Cut_in:
  "c \<in> set q \<Longrightarrow> strings_Cut (q @ r) c = (fst (strings_Cut q c), snd (strings_Cut q c) @ r)"
proof -
  assume "c \<in> set q"
  then have ex: "\<exists>x\<in>set q. \<not> x \<noteq> c"
    by simp
  then have "dropWhile (\<lambda>x. x \<noteq> c) q \<noteq> []"
    by simp
  then have "drop 1 (dropWhile (\<lambda>x. x \<noteq> c) q @ r) = drop 1 (dropWhile (\<lambda>x. x \<noteq> c) q) @ r"
    by (cases "dropWhile (\<lambda>x. x \<noteq> c) q") simp_all
  then show ?thesis
    using ex by (auto simp: strings_Cut_def)
qed

lemma parseQuery_Nil: "parseQuery st [] = st"
  by (simp add: parseQuery.simps)

lemma parseQuery_step:
  "q \<noteq> [] \<Longrightarrow> parseQuery st q =
     parseQuery (parseQuery_pair st (fst (strings_Cut q CHR ''&''))) (snd (strings_Cut q CHR ''&''))"
  by (subst parseQuery.simps) simp

lemma parseQuery_pair_Nil: "parseQuery_pair st [] = st"
  by (simp add: parseQuery_pair_def)

lemma parseQuery_single: "CHR ''&'' \<notin> set p \<Longrightarrow> parseQuery st p = parseQuery_pair st p"
  by (cases "p = []") (simp_all add: parseQuery_Nil parseQuery_pair_Nil parseQuery_step strings_Cut_notin)

lemma parseQuery_append_piece:
  "CHR ''&'' \<notin> set p \<Longrightarrow> parseQuery st (q @ CHR ''&'' # p) = parseQuery_pair (parseQuery st q) p"
proof (induction st q rule: parseQuery.induct)
  case (1 st q)
  show ?case
  proof (cases "q = []")
    case True
    have "strings_Cut (CHR ''&'' # p) CHR ''&'' = ([], p)"
      using strings_Cut_append[of "CHR ''&''" "[]" p] by simp
    then show ?thesis
      using True 1(2) by (simp add: parseQuery_step parseQuery_Nil parseQuery_pair_Nil parseQuery_single)
  next
    case False
    show ?thesis
    proof (cases "CHR ''&'' \<in> set q")
      case True
      then have "strings_Cut (q @ CHR ''&'' # p) CHR ''&'' =
          (fst (strings_Cut q CHR ''&''), snd (strings_Cut q CHR ''&'') @ CHR ''&'' # p)"
        by (rule strings_Cut_in)
      then show ?thesis
        using False 1 by (simp add: parseQuery_step)
    next
      case nin: False
      then have "strings_Cut (q @ CHR ''&'' # p) CHR ''&'' = (q, p)"
        by (rule strings_Cut_append)
      then have "parseQuery st (q @ CHR ''&'' # p) = parseQuery (parseQuery_pair st q) p"
        by (subst parseQuery_step) simp_all
      also have "\<dots> = parseQuery_pair (parseQuery_pair st q) p"
        using 1(2) by (rule parseQuery_single)
      also have "parseQuery_pair st q = parseQuery st q"
        using parseQuery_single[OF nin, of st] by simp
      finally show ?thesis .
    qed
  qed
qed

lemma unescape_check_plain: "CHR ''%'' \<notin> set s \<Longrightarrow> unescape_check s = None"
  by (induction s rule: unescape_check.induct) auto

lemma QueryUnescape_plain:
  "CHR ''%'' \<notin> set s \<Longrightarrow> CHR ''+'' \<notin> set s \<Longrightarrow> QueryUnescape s = Inr s"
  by (simp add: QueryUnescape_def unescape_check_plain Let_def count_list_0_iff)

lemma hextable_special:
  "CHR ''%'' \<notin> set hextable" "CHR ''+'' \<notin> set hextable" "CHR ''&'' \<notin> set hextable"
  "CHR '';'' \<notin> set hextable" "CHR ''='' \<notin> set hextable"
  by (simp_all add: hextable_def)

lemma parseQuery_pair_hash:
  assumes "set H \<subseteq> set hextable"
  shows "parseQuery_pair (m, e) (''hash='' @ H) = (assign m ''hash'' (index m ''hash'' @ [H]), e)"
proof -
  have nin: "CHR ''%'' \<notin> set H" "CHR ''+'' \<notin> set H" "CHR '';'' \<notin> set H"
    using assms hextable_special by blast+
  have cut: "strings_Cut (''hash='' @ H) CHR ''='' = (''hash'', H)"
    using strings_Cut_append[of "CHR ''=''" "''hash''" H] by simp
  have "QueryUnescape ''hash'' = Inr ''hash''" "QueryUnescape H = Inr H"
    using nin by (simp_all add: QueryUnescape_plain)
  then show ?thesis
    using nin(3) cut by (simp add: parseQuery_pair_def Let_def)
qed

lemma url_ParseQuery_signed:
  assumes "url_ParseQuery P = (vals, None)" and "set H \<subseteq> set hextable"
  shows "url_ParseQuery (P @ ''&hash='' @ H) = (assign vals ''hash'' (index vals ''hash'' @ [H]), None)"
proof -
  have "CHR ''&'' \<notin> set (''hash='' @ H)"
    using assms(2) hextable_special by auto
  then have "parseQuery ([], None) (P @ CHR ''&'' # (''hash='' @ H)) =
      parseQuery_pair (parseQuery ([], None) P) (''hash='' @ H)"
    by (rule parseQuery_append_piece)
  also have "\<dots> = parseQuery_pair (vals, None) (''hash='' @ H)"
    using assms(1) by (simp only: url_ParseQuery_def)
  also have "\<dots> = (assign vals ''hash'' (index vals ''hash'' @ [H]), None)"
    using assms(2) by (rule parseQuery_pair_hash)
  finally show ?thesis
    by (simp add: url_ParseQuery_def)
qed

lemma parseInitData_signed:
  assumes "url_ParseQuery P = (vals, None)" and "set H \<subseteq> set hextable"
    and "range_values (assign vals ''hash'' (index vals ''hash'' @ [H]))
           (assign vals ''hash'' (index vals ''hash'' @ [H])) [] = ps"
  shows "parseInitData (P @ ''&hash='' @ H) = (ps, index ps ''hash'', None)"
  using url_ParseQuery_signed[OF assms(1,2)] assms(3)
  by (simp only: parseInitData_def Let_def prod.case option.case)

lemma computeHMAC_not_Nil: "computeHMAC s t \<noteq> []"
  using length_computeHMAC[of s t] by auto

subsection \<open>Verification of a signed payload\<close>

text \<open>
  For a payload of the fields \<open>auth_date\<close> and \<open>user\<close> that carries the signature of
  its own canonical string, the required-field check and the signature check pass, and
  the result is decided by the timestamp check and the user decoder.
\<close>

lemma createDataCheckString_two:
  "createDataCheckString [(''auth_date'', a), (''user'', u), (''hash'', H)] a =
     ''auth_date='' @ a @ CHR 0x0A # ''user='' @ u"
  by (simp add: createDataCheckString_def less_eq_char_def)

lemma VerifyWebAppData_checked:
  assumes "parseInitData payload = (params, hashValue, None)"
    and "validateRequiredFields params = None"
    and "validateDataSignature params hashValue token = None"
  shows "VerifyWebAppData now payload token =
     (case validateAuthTimestamp now (index params ''auth_date'') of
        Some err \<Rightarrow> (WebAppUser_zero, Some err)
      | None \<Rightarrow> decodeUserData (index params ''user''))"
  by (simp add: VerifyWebAppData_def assms split: option.splits)

lemma two_field_stages:
  assumes parse: "url_ParseQuery P = ([(''auth_date'', [a]), (''user'', [u])], None)"
    and ne: "a \<noteq> []" "u \<noteq> []"
    and H: "H = computeHMAC (''auth_date='' @ a @ CHR 0x0A # ''user='' @ u) token"
  shows "parseInitData (P @ ''&hash='' @ H) = ([(''auth_date'', a), (''user'', u), (''hash'', H)], H, None)"
    and "validateRequiredFields [(''auth_date'', a), (''user'', u), (''hash'', H)] = None"
    and "validateDataSignature [(''auth_date'', a), (''user'', u), (''hash'', H)] H token = None"
proof -
  let ?vals = "[(''auth_date'', [a]), (''user'', [u])]"
  let ?ps = "[(''auth_date'', a), (''user'', u), (''hash'', H)]"
  have hex: "set H \<subseteq> set hextable"
    unfolding H by (rule set_computeHMAC)
  have rv: "range_values (assign ?vals ''hash'' (index ?vals ''hash'' @ [H]))
           (assign ?vals ''hash'' (index ?vals ''hash'' @ [H])) [] = ?ps"
    by (simp add: index_def Values_Get_def)
  have i: "index ?ps ''hash'' = H" "index ?ps ''auth_date'' = a" "index ?ps ''user'' = u"
    by (simp_all add: index_def)
  show "parseInitData (P @ ''&hash='' @ H) = (?ps, H, None)"
    using parseInitData_signed[OF parse hex rv] unfolding i .
  have Hne: "H \<noteq> []"
    unfolding H by (rule computeHMAC_not_Nil)
  show "validateRequiredFields ?ps = None"
    using ne Hne by (simp add: validateRequiredFields_def i)
  show "validateDataSignature ?ps H token = None"
    unfolding validateDataSignature_iff i createDataCheckString_two using H by simp
qed

lemma two_field_payload:
  assumes parse: "url_ParseQuery P = ([(''auth_date'', [a]), (''user'', [u])], None)"
    and ne: "a \<noteq> []" "u \<noteq> []"
    and H: "H = computeHMAC (''auth_date='' @ a @ CHR 0x0A # ''user='' @ u) token"
  shows "VerifyWebAppData now (P @ ''&hash='' @ H) token =
     (case validateAuthTimestamp now a of
        Some err \<Rightarrow> (WebAppUser_zero, Some err)
      | None \<Rightarrow> decodeUserData u)"
  using VerifyWebAppData_checked[OF two_field_stages[OF assms], of now]
  by (simp add: index_def split: option.splits)

subsection \<open>The end-to-end scenario\<close>

lemma ParseInt_scenario: "ParseInt ''1625097522'' = Inr 1625097522"
  by code_simp

lemma decodeUserData_scenario:
  "decodeUserData ''{\"id\":12345,\"first_name\":\"Test\"}'' =
     (WebAppUser_zero\<lparr>ID := 12345, FirstName := ''Test''\<rparr>, None)"
  by code_simp

lemma url_ParseQuery_scenario:
  "url_ParseQuery ''auth_date=1625097522&user=%7B%22id%22%3A12345%2C%22first_name%22%3A%22Test%22%7D''
     = ([(''auth_date'', [''1625097522'']), (''user'', [''{\"id\":12345,\"first_name\":\"Test\"}''])], None)"
  by code_simp

text \<open>
  Claim C6, as amended. The scenario's canonical string is the line of \<open>auth_date\<close>, a
  newline and the line of \<open>user\<close>; the encoded user value decodes to the user JSON; and
  the result for the payload signed with \<open>test_token\<close> is decided by the clock alone. The
  clock is the pair of seconds \<open>s\<close> and nanoseconds \<open>ns\<close> since the epoch. When it reads
  at most 24 hours after the \<open>auth_date\<close> 1625097522, the payload verifies and the profile
  with \<open>ID = 12345\<close> and \<open>FirstName = Test\<close> is returned; at every later reading the same
  payload is answered with \<open>ErrDataExpired\<close> and the zero profile.
\<close>

theorem scenario_verifies:
  assumes "0 \<le> s" "s < 2 ^ 62" "0 \<le> ns" "ns < 1000000000"
  shows "createDataCheckString
           [(''user'', ''{\"id\":12345,\"first_name\":\"Test\"}''), (''auth_date'', ''1625097522'')] ''1625097522''
         = ''auth_date=1625097522'' @ CHR 0x0A # ''user={\"id\":12345,\"first_name\":\"Test\"}''
     \<and> QueryUnescape ''%7B%22id%22%3A12345%2C%22first_name%22%3A%22Test%22%7D''
         = Inr ''{\"id\":12345,\"first_name\":\"Test\"}''
     \<and> VerifyWebAppData (clock s ns)
           (''auth_date=1625097522&user=%7B%22id%22%3A12345%2C%22first_name%22%3A%22Test%22%7D&hash='' @
            hex_EncodeToString (HMAC_SHA256 (HMAC_SHA256 ''WebAppData'' ''test_token'')
              (''auth_date=1625097522'' @ CHR 0x0A # ''user={\"id\":12345,\"first_name\":\"Test\"}'')))
           ''test_token''
         = (if (s - 1625097522) * 1000000000 + ns \<le> 86400 * 1000000000
            then (WebAppUser_zero\<lparr>ID := 12345, FirstName := ''Test''\<rparr>, None)
            else (WebAppUser_zero, Some ErrDataExpired))"
proof (intro conjI)
  show "createDataCheckString
           [(''user'', ''{\"id\":12345,\"first_name\":\"Test\"}''), (''auth_date'', ''1625097522'')] ''1625097522''
         = ''auth_date=1625097522'' @ CHR 0x0A # ''user={\"id\":12345,\"first_name\":\"Test\"}''"
    by (simp add: createDataCheckString_def less_eq_char_def)
  show "QueryUnescape ''%7B%22id%22%3A12345%2C%22first_name%22%3A%22Test%22%7D''
         = Inr ''{\"id\":12345,\"first_name\":\"Test\"}''"
    by code_simp
  have t: "validateAuthTimestamp (clock s ns) ''1625097522'' =
      (if (s - 1625097522) * 1000000000 + ns \<le> 86400 * 1000000000 then None else Some ErrDataExpired)"
    using assms by (simp add: validateAuthTimestamp_clock[OF ParseInt_scenario])
  have "VerifyWebAppData (clock s ns)
           (''auth_date=1625097522&user=%7B%22id%22%3A12345%2C%22first_name%22%3A%22Test%22%7D'' @ ''&hash='' @
            computeHMAC (''auth_date=1625097522'' @ CHR 0x0A # ''user={\"id\":12345,\"first_name\":\"Test\"}'') ''test_token'')
           ''test_token''
         = (if (s - 1625097522) * 1000000000 + ns \<le> 86400 * 1000000000
            then (WebAppUser_zero\<lparr>ID := 12345, FirstName := ''Test''\<rparr>, None)
            else (WebAppUser_zero, Some ErrDataExpired))"
    using two_field_payload[OF url_ParseQuery_scenario _ _ refl,
        where token = "''test_token''" and now = "clock s ns"]
    by (simp add: t decodeUserData_scenario)
  then show "VerifyWebAppData (clock s ns)
           (''auth_date=1625097522&user=%7B%22id%22%3A12345%2C%22first_name%22%3A%22Test%22%7D&hash='' @
            hex_EncodeToString (HMAC_SHA256 (HMAC_SHA256 ''WebAppData'' ''test_token'')
              (''auth_date=1625097522'' @ CHR 0x0A # ''user={\"id\":12345,\"first_name\":\"Test\"}'')))
           ''test_token''
         = (if (s - 1625097522) * 1000000000 + ns \<le> 86400 * 1000000000
            then (WebAppUser_zero\<lparr>ID := 12345, FirstName := ''Test''\<rparr>, None)
            else (WebAppUser_zero, Some ErrDataExpired))"
    by (simp add: computeHMAC_eq)
qed

text \<open>
  The theorem at three readings of the clock: the instant of the \<open>auth_date\<close>, exactly 24
  hours later, and one nanosecond after that.
\<close>

theorem scenario_verifies_witness:
  "VerifyWebAppData (clock 1625097522 0)
           (''auth_date=1625097522&user=%7B%22id%22%3A12345%2C%22first_name%22%3A%22Test%22%7D&hash='' @
            hex_EncodeToString (HMAC_SHA256 (HMAC_SHA256 ''WebAppData'' ''test_token'')
              (''auth_date=1625097522'' @ CHR 0x0A # ''user={\"id\":12345,\"first_name\":\"Test\"}'')))
           ''test_token''
         = (WebAppUser_zero\<lparr>ID := 12345, FirstName := ''Test''\<rparr>, None)
   \<and> VerifyWebAppData (clock 1625183922 0)
           (''auth_date=1625097522&user=%7B%22id%22%3A12345%2C%22first_name%22%3A%22Test%22%7D&hash='' @
            hex_EncodeToString (HMAC_SHA256 (HMAC_SHA256 ''WebAppData'' ''test_token'')
              (''auth_date=1625097522'' @ CHR 0x0A # ''user={\"id\":12345,\"first_name\":\"Test\"}'')))
           ''test_token''
         = (WebAppUser_zero\<lparr>ID := 12345, FirstName := ''Test''\<rparr>, None)
   \<and> VerifyWebAppData (clock 1625183922 1)
           (''auth_date=1625097522&user=%7B%22id%22%3A12345%2C%22first_name%22%3A%22Test%22%7D&hash='' @
            hex_EncodeToString (HMAC_SHA256 (HMAC_SHA256 ''WebAppData'' ''test_token'')
              (''auth_date=1625097522'' @ CHR 0x0A # ''user={\"id\":12345,\"first_name\":\"Test\"}'')))
           ''test_token''
         = (WebAppUser_zero, Some ErrDataExpired)"
  using scenario_verifies[of 1625097522 0] scenario_verifies[of 1625183922 0]
    scenario_verifies[of 1625183922 1]
  by simp

text \<open>
  Claim C6 as stated does not hold: the scenario fixes the \<open>auth_date\<close> and the timestamp
  check reads the clock. One second past the 24 hours, at 1625183923, the same payload
  with the same valid signature is answered with \<open>ErrDataExpired\<close>.
\<close>

theorem scenario_expired:
  "VerifyWebAppData (clock 1625183923 0)
     (''auth_date=1625097522&user=%7B%22id%22%3A12345%2C%22first_name%22%3A%22Test%22%7D&hash='' @
      hex_EncodeToString (HMAC_SHA256 (HMAC_SHA256 ''WebAppData'' ''test_token'')
        (''auth_date=1625097522'' @ CHR 0x0A # ''user={\"id\":12345,\"first_name\":\"Test\"}'')))
     ''test_token'' = (WebAppUser_zero, Some ErrDataExpired)"
proof -
  have t: "validateAuthTimestamp (clock 1625183923 0) ''1625097522'' = Some ErrDataExpired"
    by (simp add: validateAuthTimestamp_clock ParseInt_scenario)
  have "VerifyWebAppData (clock 1625183923 0)
     (''auth_date=1625097522&user=%7B%22id%22%3A12345%2C%22first_name%22%3A%22Test%22%7D'' @ ''&hash='' @
      computeHMAC (''auth_date=1625097522'' @ CHR 0x0A # ''user={\"id\":12345,\"first_name\":\"Test\"}'') ''test_token'')
     ''test_token'' = (WebAppUser_zero, Some ErrDataExpired)"
    using two_field_payload[OF url_ParseQuery_scenario _ _ refl,
        where token = "''test_token''" and now = "clock 1625183923 0"]
    by (simp add: t)
  then show ?thesis
    by (simp add: computeHMAC_eq)
qed

subsection \<open>The profile returned with an error\<close>

text \<open>
  Every error other than the one of the JSON decoder comes with the zero profile.
\<close>

lemma VerifyWebAppData_zero_profile:
  assumes "VerifyWebAppData now payload token = (user, Some err)"
    and "\<forall>e. err \<noteq> JsonDecodeFailed e"
  shows "user = WebAppUser_zero"
  using assms
  by (auto simp: VerifyWebAppData_def decodeUserData_def
           split: prod.splits option.splits sum.splits)

lemma url_ParseQuery_partial:
  "url_ParseQuery ''auth_date=1700000000&user=%7B%22id%22%3A7%2C%22first_name%22%3A5%7D''
     = ([(''auth_date'', [''1700000000'']), (''user'', [''{\"id\":7,\"first_name\":5}''])], None)"
  by code_simp

lemma ParseInt_partial: "ParseInt ''1700000000'' = Inr 1700000000"
  by code_simp

lemma decodeUserData_partial:
  "decodeUserData ''{\"id\":7,\"first_name\":5}'' =
     (WebAppUser_zero\<lparr>ID := 7\<rparr>, Some (JsonDecodeFailed (UnmarshalTypeError ''number'')))"
  by code_simp

text \<open>
  Claim C5. The claim is what the package intends (every other error path returns
  \<^verbatim>\<open>WebAppUser{}\<close>), but line 150 returns the variable \<open>user\<close> that
  \<^verbatim>\<open>json.Unmarshal\<close> has written to: the decoder keeps the first type mismatch as its
  error and goes on, so the fields decoded before and after it are set. For the user
  JSON \<open>{"id":7,"first_name":5}\<close> in a correctly signed, fresh payload the result is the
  error of the decoder together with a profile whose \<open>ID\<close> is 7.
\<close>

theorem partial_profile_with_error:
  "VerifyWebAppData (clock 1700000000 0)
     (''auth_date=1700000000&user=%7B%22id%22%3A7%2C%22first_name%22%3A5%7D&hash='' @
      computeHMAC (''auth_date=1700000000'' @ CHR 0x0A # ''user={\"id\":7,\"first_name\":5}'') ''test_token'')
     ''test_token''
   = (WebAppUser_zero\<lparr>ID := 7\<rparr>, Some (JsonDecodeFailed (UnmarshalTypeError ''number'')))
   \<and> WebAppUser_zero\<lparr>ID := 7\<rparr> \<noteq> WebAppUser_zero"
proof
  have t: "validateAuthTimestamp (clock 1700000000 0) ''1700000000'' = None"
    by (simp add: validateAuthTimestamp_clock[OF ParseInt_partial])
  show "VerifyWebAppData (clock 1700000000 0)
     (''auth_date=1700000000&user=%7B%22id%22%3A7%2C%22first_name%22%3A5%7D&hash='' @
      computeHMAC (''auth_date=1700000000'' @ CHR 0x0A # ''user={\"id\":7,\"first_name\":5}'') ''test_token'')
     ''test_token''
   = (WebAppUser_zero\<lparr>ID := 7\<rparr>, Some (JsonDecodeFailed (UnmarshalTypeError ''number'')))"
    using two_field_payload[OF url_ParseQuery_partial _ _ refl,
        where token = "''test_token''" and now = "clock 1700000000 0"]
    by (simp add: t decodeUserData_partial)
  show "WebAppUser_zero\<lparr>ID := 7\<rparr> \<noteq> WebAppUser_zero"
    by (simp add: WebAppUser_zero_def)
qed

subsection \<open>The second unescaping of the user value\<close>

text \<open>
  \<open>QueryUnescape\<close> succeeds exactly when the percent-decoding pass does, and then
  returns its text; its failure is an \<^verbatim>\<open>EscapeError\<close>. The out-of-range read of its
  second loop cannot happen after the first loop has found no error.
\<close>

lemma unescape_check_percent_decode:
  "(unescape_check s = None) = (percent_decode s \<noteq> None)"
  by (induction s rule: unescape_check.induct) (auto split: list.splits)

lemma unescape_write_percent_decode:
  "unescape_check s = None \<Longrightarrow> unescape_write s = percent_decode s"
proof (induction s rule: unescape_check.induct)
  fix c h1 h2 s
  assume ih1: "c = CHR ''%'' \<Longrightarrow> ishex h1 \<and> ishex h2 \<Longrightarrow> unescape_check s = None \<Longrightarrow>
      unescape_write s = percent_decode s"
    and ih2: "c \<noteq> CHR ''%'' \<Longrightarrow> unescape_check (h1 # h2 # s) = None \<Longrightarrow>
      unescape_write (h1 # h2 # s) = percent_decode (h1 # h2 # s)"
    and ok: "unescape_check (c # h1 # h2 # s) = None"
  show "unescape_write (c # h1 # h2 # s) = percent_decode (c # h1 # h2 # s)"
  proof (cases "c = CHR ''%''")
    case True
    with ih1 ok show ?thesis
      by (cases "ishex h1 \<and> ishex h2") simp_all
  next
    case False
    with ih2 ok have "unescape_write (h1 # h2 # s) = percent_decode (h1 # h2 # s)"
      by simp
    with False show ?thesis
      by simp
  qed
next
  fix c
  assume "unescape_check [c] = None"
  then show "unescape_write [c] = percent_decode [c]"
    by (cases "c = CHR ''%''") simp_all
next
  fix c h
  assume ih: "c \<noteq> CHR ''%'' \<Longrightarrow> unescape_check [h] = None \<Longrightarrow> unescape_write [h] = percent_decode [h]"
    and ok: "unescape_check [c, h] = None"
  show "unescape_write [c, h] = percent_decode [c, h]"
  proof (cases "c = CHR ''%''")
    case True
    with ok show ?thesis by simp
  next
    case False
    with ih ok have "unescape_write [h] = percent_decode [h]"
      by simp
    with False show ?thesis
      by simp
  qed
qed simp

lemma unescape_check_EscapeError:
  "unescape_check s = Some e \<Longrightarrow> \<exists>t. e = EscapeError t"
  by (induction s rule: unescape_check.induct) (auto split: if_splits)

lemma percent_decode_plain:
  "CHR ''%'' \<notin> set s \<Longrightarrow> CHR ''+'' \<notin> set s \<Longrightarrow> percent_decode s = Some s"
  by (induction s) auto

lemma QueryUnescape_percent_decode:
  "QueryUnescape s =
     (case percent_decode s of
        None \<Rightarrow> Inl (the (unescape_check s))
      | Some d \<Rightarrow> Inr d)"
proof (cases "unescape_check s")
  case None
  then obtain d where d: "percent_decode s = Some d"
    using unescape_check_percent_decode[of s] by auto
  then have w: "unescape_write s = Some d"
    using None by (simp add: unescape_write_percent_decode)
  show ?thesis
  proof (cases "CHR ''%'' \<notin> set s \<and> CHR ''+'' \<notin> set s")
    case True
    then have "percent_decode s = Some s"
      by (simp add: percent_decode_plain)
    then show ?thesis
      using True None by (simp add: QueryUnescape_def Let_def count_list_0_iff)
  next
    case False
    then show ?thesis
      using None d w by (auto simp: QueryUnescape_def Let_def count_list_0_iff)
  qed
next
  case (Some e)
  then have "percent_decode s = None"
    using unescape_check_percent_decode[of s] by auto
  then show ?thesis
    using Some by (simp add: QueryUnescape_def)
qed

lemma decodeUserData_percent_decode:
  "decodeUserData u =
     (case percent_decode u of
        None \<Rightarrow> (WebAppUser_zero, Some (UrlUnescapeFailed (the (unescape_check u))))
      | Some d \<Rightarrow> unmarshal_user d)"
  by (simp add: decodeUserData_def QueryUnescape_percent_decode unmarshal_user_def split: option.splits)


lemma percent_decode_no_percent:
  "CHR ''%'' \<notin> set s \<Longrightarrow>
   percent_decode s = Some (map (\<lambda>c. if c = CHR ''+'' then CHR '' '' else c) s)"
  by (induction s) auto

lemma ishex_percent: "\<not> ishex CHR ''%''"
  by (simp add: ishex_def less_eq_char_def)

lemma percent_decode_bad_escape:
  "\<not> starts_with_two_hex b \<Longrightarrow> percent_decode (a @ CHR ''%'' # b) = None"
proof (induction a rule: unescape_check.induct)
  assume "\<not> starts_with_two_hex b"
  then show "percent_decode ([] @ CHR ''%'' # b) = None"
    by (auto simp: starts_with_two_hex_def split: list.splits)
next
  fix c h1 h2 s
  assume "c = CHR ''%'' \<Longrightarrow> ishex h1 \<and> ishex h2 \<Longrightarrow> \<not> starts_with_two_hex b \<Longrightarrow>
      percent_decode (s @ CHR ''%'' # b) = None"
    and "c \<noteq> CHR ''%'' \<Longrightarrow> \<not> starts_with_two_hex b \<Longrightarrow>
      percent_decode ((h1 # h2 # s) @ CHR ''%'' # b) = None"
    and "\<not> starts_with_two_hex b"
  then show "percent_decode ((c # h1 # h2 # s) @ CHR ''%'' # b) = None"
    by (cases "c = CHR ''%''"; cases "ishex h1 \<and> ishex h2") auto
next
  fix c
  assume "c \<noteq> CHR ''%'' \<Longrightarrow> \<not> starts_with_two_hex b \<Longrightarrow> percent_decode ([] @ CHR ''%'' # b) = None"
    and "\<not> starts_with_two_hex b"
  then show "percent_decode ([c] @ CHR ''%'' # b) = None"
    by (simp add: ishex_percent split: list.splits)
next
  fix c h
  assume "c \<noteq> CHR ''%'' \<Longrightarrow> \<not> starts_with_two_hex b \<Longrightarrow> percent_decode ([h] @ CHR ''%'' # b) = None"
    and "\<not> starts_with_two_hex b"
  then show "percent_decode ([c, h] @ CHR ''%'' # b) = None"
    by (simp add: ishex_percent split: list.splits)
qed

lemma decodeUserData_failure:
  assumes "percent_decode u = None"
  shows "\<exists>t. decodeUserData u = (WebAppUser_zero, Some (UrlUnescapeFailed (EscapeError t)))"
proof -
  from assms obtain e where e: "unescape_check u = Some e"
    using unescape_check_percent_decode[of u] by auto
  then obtain t where "e = EscapeError t"
    using unescape_check_EscapeError by blast
  then show ?thesis
    using assms e by (simp add: decodeUserData_percent_decode)
qed

lemma VerifyWebAppData_stages:
  assumes "parseInitData payload = (params, hashValue, None)"
    and "validateRequiredFields params = None"
    and "validateAuthTimestamp now (index params ''auth_date'') = None"
    and "validateDataSignature params hashValue token = None"
  shows "VerifyWebAppData now payload token = decodeUserData (index params ''user'')"
  by (simp add: VerifyWebAppData_def assms)

text \<open>
  Claim C10. The value of \<open>user\<close> in the field map has been unescaped once by the
  payload parser. When the required-field, timestamp and signature checks have all
  passed, the result of the verification is that of the decoder, which unescapes this
  value once more, whatever it is: if the percent-decoding of the value succeeds, the
  JSON decoder is run on the decoded text and not on the value; if it fails, the
  verification fails with the error of the unescaping. In particular, for a value
  without \<open>%\<close> the JSON decoder reads the value with every \<open>+\<close> replaced by a space, and
  a value with a \<open>%\<close> that is not followed by two hexadecimal digits makes the
  verification fail with an \<^verbatim>\<open>EscapeError\<close>.
\<close>

theorem decodeUserData_second_unescape:
  assumes "parseInitData payload = (params, hashValue, None)"
    and "validateRequiredFields params = None"
    and "validateAuthTimestamp now (index params ''auth_date'') = None"
    and "validateDataSignature params hashValue token = None"
    and "u = index params ''user''"
  shows "(\<forall>d. percent_decode u = Some d \<longrightarrow> VerifyWebAppData now payload token = unmarshal_user d)
     \<and> (percent_decode u = None \<longrightarrow>
          (\<exists>t. VerifyWebAppData now payload token
                 = (WebAppUser_zero, Some (UrlUnescapeFailed (EscapeError t)))))
     \<and> (CHR ''%'' \<notin> set u \<longrightarrow>
          VerifyWebAppData now payload token
            = unmarshal_user (map (\<lambda>c. if c = CHR ''+'' then CHR '' '' else c) u))
     \<and> (\<forall>a b. u = a @ CHR ''%'' # b \<and> \<not> starts_with_two_hex b \<longrightarrow>
          (\<exists>t. VerifyWebAppData now payload token
                 = (WebAppUser_zero, Some (UrlUnescapeFailed (EscapeError t)))))"
proof -
  have v: "VerifyWebAppData now payload token = decodeUserData u"
    unfolding assms(5) using assms(1-4) by (rule VerifyWebAppData_stages)
  have 1: "\<forall>d. percent_decode u = Some d \<longrightarrow> VerifyWebAppData now payload token = unmarshal_user d"
    by (simp add: v decodeUserData_percent_decode)
  have 2: "percent_decode u = None \<longrightarrow>
          (\<exists>t. VerifyWebAppData now payload token
                 = (WebAppUser_zero, Some (UrlUnescapeFailed (EscapeError t))))"
    unfolding v using decodeUserData_failure by blast
  have 3: "CHR ''%'' \<notin> set u \<longrightarrow>
          VerifyWebAppData now payload token
            = unmarshal_user (map (\<lambda>c. if c = CHR ''+'' then CHR '' '' else c) u)"
    using 1 percent_decode_no_percent[of u] by blast
  have 4: "\<forall>a b. u = a @ CHR ''%'' # b \<and> \<not> starts_with_two_hex b \<longrightarrow>
          (\<exists>t. VerifyWebAppData now payload token
                 = (WebAppUser_zero, Some (UrlUnescapeFailed (EscapeError t))))"
  proof (intro allI impI)
    fix a b
    assume "u = a @ CHR ''%'' # b \<and> \<not> starts_with_two_hex b"
    then have "percent_decode u = None"
      by (simp add: percent_decode_bad_escape)
    with 2 show "\<exists>t. VerifyWebAppData now payload token
                 = (WebAppUser_zero, Some (UrlUnescapeFailed (EscapeError t)))"
      by simp
  qed
  show ?thesis
    using 1 2 3 4 by (intro conjI)
qed

text \<open>
  The theorem at two payloads that are fresh and correctly signed: the first name
  \<open>A+B\<close> is returned as \<open>A B\<close>, and the first name \<open>100%\<close> makes the verification fail.
\<close>

lemma url_ParseQuery_plus:
  "url_ParseQuery ''auth_date=1700000000&user=%7B%22first_name%22%3A%22A%2BB%22%7D''
     = ([(''auth_date'', [''1700000000'']), (''user'', [''{\"first_name\":\"A+B\"}''])], None)"
  by code_simp

lemma url_ParseQuery_percent:
  "url_ParseQuery ''auth_date=1700000000&user=%7B%22first_name%22%3A%22100%25%22%7D''
     = ([(''auth_date'', [''1700000000'']), (''user'', [''{\"first_name\":\"100%\"}''])], None)"
  by code_simp

lemma unmarshal_user_plus:
  "unmarshal_user ''{\"first_name\":\"A B\"}'' = (WebAppUser_zero\<lparr>FirstName := ''A B''\<rparr>, None)"
  by code_simp

theorem decodeUserData_second_unescape_witness:
  "VerifyWebAppData (clock 1700000000 0)
     (''auth_date=1700000000&user=%7B%22first_name%22%3A%22A%2BB%22%7D'' @ ''&hash='' @
      computeHMAC (''auth_date=1700000000'' @ CHR 0x0A # ''user={\"first_name\":\"A+B\"}'') ''test_token'')
     ''test_token''
   = (WebAppUser_zero\<lparr>FirstName := ''A B''\<rparr>, None)
   \<and> (\<exists>t. VerifyWebAppData (clock 1700000000 0)
     (''auth_date=1700000000&user=%7B%22first_name%22%3A%22100%25%22%7D'' @ ''&hash='' @
      computeHMAC (''auth_date=1700000000'' @ CHR 0x0A # ''user={\"first_name\":\"100%\"}'') ''test_token'')
     ''test_token''
   = (WebAppUser_zero, Some (UrlUnescapeFailed (EscapeError t))))"
proof
  let ?now = "clock 1700000000 0"
  let ?u1 = "''{\"first_name\":\"A+B\"}''"
  let ?u2 = "''{\"first_name\":\"100%\"}''"
  let ?H1 = "computeHMAC (''auth_date=1700000000'' @ CHR 0x0A # ''user='' @ ?u1) ''test_token''"
  let ?H2 = "computeHMAC (''auth_date=1700000000'' @ CHR 0x0A # ''user='' @ ?u2) ''test_token''"
  let ?ps1 = "[(''auth_date'', ''1700000000''), (''user'', ?u1), (''hash'', ?H1)]"
  let ?ps2 = "[(''auth_date'', ''1700000000''), (''user'', ?u2), (''hash'', ?H2)]"
  have t: "validateAuthTimestamp ?now ''1700000000'' = None"
    by (simp add: validateAuthTimestamp_clock[OF ParseInt_partial])
  have i1: "index ?ps1 ''auth_date'' = ''1700000000''" "index ?ps1 ''user'' = ?u1"
    by (simp_all add: index_def)
  have i2: "index ?ps2 ''auth_date'' = ''1700000000''" "index ?ps2 ''user'' = ?u2"
    by (simp_all add: index_def)
  note s1 = two_field_stages[OF url_ParseQuery_plus _ _ refl, where token = "''test_token''", simplified]
  note s2 = two_field_stages[OF url_ParseQuery_percent _ _ refl, where token = "''test_token''", simplified]
  have m: "map (\<lambda>c. if c = CHR ''+'' then CHR '' '' else c) ?u1 = ''{\"first_name\":\"A B\"}''"
    by simp
  have "CHR ''%'' \<notin> set ?u1"
    by simp
  then show "VerifyWebAppData ?now
     (''auth_date=1700000000&user=%7B%22first_name%22%3A%22A%2BB%22%7D'' @ ''&hash='' @
      computeHMAC (''auth_date=1700000000'' @ CHR 0x0A # ''user={\"first_name\":\"A+B\"}'') ''test_token'')
     ''test_token''
   = (WebAppUser_zero\<lparr>FirstName := ''A B''\<rparr>, None)"
    using decodeUserData_second_unescape[of _ ?ps1 ?H1 ?now "''test_token''" ?u1]
      s1 t i1 m unmarshal_user_plus
    by simp
  have ne: "''1700000000'' \<noteq> []" "?u2 \<noteq> []"
    by simp_all
  let ?G = "computeHMAC (''auth_date='' @ ''1700000000'' @ CHR 0x0A # ''user='' @ ?u2) ''test_token''"
  let ?qs = "[(''auth_date'', ''1700000000''), (''user'', ?u2), (''hash'', ?G)]"
  note st = two_field_stages[OF url_ParseQuery_percent ne refl, where token = "''test_token''"]
  have t2: "validateAuthTimestamp ?now (index ?qs ''auth_date'') = None"
    by (simp add: index_def t)
  have u: "index ?qs ''user'' = ''{\"first_name\":\"100'' @ CHR ''%'' # ''\"}''
      \<and> \<not> starts_with_two_hex ''\"}''"
    by (simp add: index_def starts_with_two_hex_def ishex_def less_eq_char_def)
  have "\<exists>t. VerifyWebAppData ?now
      (''auth_date=1700000000&user=%7B%22first_name%22%3A%22100%25%22%7D'' @ ''&hash='' @ ?G) ''test_token''
      = (WebAppUser_zero, Some (UrlUnescapeFailed (EscapeError t)))"
    using decodeUserData_second_unescape[OF st(1) st(2) t2 st(3) refl,
        THEN conjunct2, THEN conjunct2, THEN conjunct2, rule_format, OF u] .
  then show "\<exists>t. VerifyWebAppData ?now
     (''auth_date=1700000000&user=%7B%22first_name%22%3A%22100%25%22%7D'' @ ''&hash='' @
      computeHMAC (''auth_date=1700000000'' @ CHR 0x0A # ''user={\"first_name\":\"100%\"}'') ''test_token'')
     ''test_token''
   = (WebAppUser_zero, Some (UrlUnescapeFailed (EscapeError t)))"
    by simp
qed

subsection \<open>Repeated keys\<close>













































end
